theory Spec2Isabelle
  imports Complex_Main
begin

section \<open>JavaScript values, objects and promises\<close>

text \<open>
  Plain data as the editor stores it. Numbers are modelled by \<open>int\<close>; an object is the list
  of its own properties in insertion order, and a \<^verbatim>\<open>Map\<close> with string keys is the same
  list. \<open>JUndefined\<close> is what reading a missing property gives.
\<close>

datatype jvalue =
    JUndefined
  | JNull
  | JBool bool
  | JNum int
  | JStr string
  | JArr "jvalue list"
  | JObj "(string \<times> jvalue) list"

type_synonym jobject = "(string \<times> jvalue) list"

type_synonym js_error = string

text \<open>\<^verbatim>\<open>obj[k]\<close> on plain data: the value, or \<^verbatim>\<open>undefined\<close>.\<close>

definition obj_read :: "jobject \<Rightarrow> string \<Rightarrow> jvalue" where
  "obj_read obj k = (case map_of obj k of None \<Rightarrow> JUndefined | Some v \<Rightarrow> v)"

text \<open>\<^verbatim>\<open>map.set(k, v)\<close>, and \<^verbatim>\<open>obj[k] = v\<close> where it writes an own property: an existing key
  keeps its place, a new key goes last.\<close>

fun obj_set :: "(string \<times> 'v) list \<Rightarrow> string \<Rightarrow> 'v \<Rightarrow> (string \<times> 'v) list" where
  "obj_set [] k v = [(k, v)]"
| "obj_set ((k', v') # rest) k v =
     (if k' = k then (k, v) # rest else (k', v') # obj_set rest k v)"

definition obj_has :: "(string \<times> 'v) list \<Rightarrow> string \<Rightarrow> bool" where
  "obj_has obj k = (k \<in> set (map fst obj))"

text \<open>
  \<^verbatim>\<open>obj[k] = v\<close> on an object made by \<^verbatim>\<open>{}\<close>, for any key. An object is the list of its own
  properties, and the key \<^verbatim>\<open>__proto__\<close> is special: unless the object has an own property of
  that name, the assignment runs the setter that \<^verbatim>\<open>Object.prototype\<close> has for it, which
  changes the prototype of the object or does nothing, and adds no own property. (An own
  \<^verbatim>\<open>__proto__\<close> is what \<^verbatim>\<open>JSON.parse\<close> makes of that key, so parsed data can have one.)
\<close>

definition obj_assign :: "jobject \<Rightarrow> string \<Rightarrow> jvalue \<Rightarrow> jobject" where
  "obj_assign obj k v =
     (if k = ''__proto__'' \<and> \<not> obj_has obj k then obj else obj_set obj k v)"

text \<open>Truthiness of a value in a condition.\<close>

fun truthy :: "jvalue \<Rightarrow> bool" where
  "truthy JUndefined = False"
| "truthy JNull = False"
| "truthy (JBool b) = b"
| "truthy (JNum n) = (n \<noteq> 0)"
| "truthy (JStr s) = (s \<noteq> [])"
| "truthy (JArr _) = True"
| "truthy (JObj _) = True"

text \<open>What a call into tool or tune code does: it returns or it throws.\<close>

datatype 'a outcome = Returns 'a | Throws js_error

text \<open>A settled promise.\<close>

datatype 'a promise = Resolved 'a | Rejected js_error

definition promise_then :: "'a promise \<Rightarrow> ('a \<Rightarrow> 'b promise) \<Rightarrow> 'b promise" where
  "promise_then p f = (case p of Resolved v \<Rightarrow> f v | Rejected e \<Rightarrow> Rejected e)"

text \<open>What a method of the Block lets out: an entry of the editor's log (type, message,
  argument), a call of a method of the tool, an event emitted to the Block's listeners.\<close>

datatype block_output =
    Logged string string string
  | ToolMethodCalled string
  | Emitted string

section \<open>The Block\<close>

text \<open>
  The class \<^verbatim>\<open>Block\<close> of \<^verbatim>\<open>components/block/index.ts\<close>. The fields that the methods below read
  or write are the fields of the record; a method takes the Block and returns the Block it
  leaves behind. Tool and tune code is foreign: what a method of a tool or tune does when
  called depends on a state \<open>'w\<close> of the world outside the Block (the page, the tool's own
  fields), passed to the method that makes the call.

  The object behind \<^verbatim>\<open>unavailableTunesData\<close> is shared between the Block and the results of
  \<^verbatim>\<open>save()\<close>, so objects of that kind live in a store and are named by their address.
\<close>

type_synonym addr = nat

type_synonym store = "addr \<Rightarrow> jobject"

type_synonym element = nat

datatype tool_save_result =
    SaveReturns jvalue
  | SaveThrows js_error
  | SaveResolves jvalue
  | SaveRejects js_error

record 'w tool_instance =
  tool_save :: "'w \<Rightarrow> tool_save_result"
  tool_method :: "string \<Rightarrow> ('w \<Rightarrow> unit outcome) option"

record 'w tune_instance =
  tune_class :: string
  tune_save :: "('w \<Rightarrow> jvalue outcome) option"

record 'w block_tune =
  tune_name :: string
  isInternal :: bool
  tune_create :: "jvalue \<Rightarrow> 'w tune_instance"

record dom_node =
  isElement :: bool
  dataset_mutationFree :: "string option"

record mutation_record =
  addedNodes :: "dom_node list"
  removedNodes :: "dom_node list"

datatype mutations_or_input_event =
    Mutations "mutation_record list"
  | InputEvent

datatype listener_kind = FocusListener | InputListener

record 'w block =
  block_id :: string
  block_name :: string
  toolInstance :: "'w tool_instance"
  tunesInstances :: "(string \<times> 'w tune_instance) list"
  defaultTunesInstances :: "(string \<times> 'w tune_instance) list"
  unavailableTunesData :: addr
  cachedInputs :: "element list"
  inputIndex :: int
  observer_connected :: bool
  listeners :: "(element \<times> listener_kind) list"
  debounce_pending :: "mutations_or_input_event option"

text \<open>
  What the Block's methods ask of the page: the editable elements below the holder in
  document order (\<^verbatim>\<open>$.findAllInputs(this.holder)\<close>), containment of nodes, which elements are
  native inputs, the focused element and the anchor of the selection.
\<close>

record page =
  findAllInputs :: "element list"
  node_contains :: "element \<Rightarrow> element \<Rightarrow> bool"
  isNativeInput :: "element \<Rightarrow> bool"
  activeElement :: "element option"
  anchorNode :: "element option"

subsection \<open>Inputs and the current input\<close>

text \<open>The getter \<^verbatim>\<open>inputs\<close>: the cache when it is not empty; else the inputs found on the
  page, cached, after lowering \<^verbatim>\<open>inputIndex\<close> to the last index when it lies beyond it.\<close>

definition inputs :: "page \<Rightarrow> ('w, 'x) block_scheme \<Rightarrow> element list \<times> ('w, 'x) block_scheme" where
  "inputs pg b =
     (if length (cachedInputs b) \<noteq> 0 then (cachedInputs b, b)
      else
        (let found = findAllInputs pg;
             b1 = (if inputIndex b > int (length found) - 1
                   then b\<lparr>inputIndex := int (length found) - 1\<rparr> else b)
         in (found, b1\<lparr>cachedInputs := found\<rparr>)))"

text \<open>Reading an array at an index: \<^verbatim>\<open>undefined\<close> outside of it.\<close>

definition array_at :: "'a list \<Rightarrow> int \<Rightarrow> 'a option" where
  "array_at xs i = (if 0 \<le> i \<and> i < int (length xs) then Some (xs ! nat i) else None)"

definition currentInput :: "page \<Rightarrow> ('w, 'x) block_scheme \<Rightarrow> element option \<times> ('w, 'x) block_scheme" where
  "currentInput pg b = (let (xs, b1) = inputs pg b in (array_at xs (inputIndex b1), b1))"

text \<open>\<^verbatim>\<open>Array.prototype.findIndex\<close>: the first index whose element passes, or \<open>-1\<close>.\<close>

fun findIndex :: "('a \<Rightarrow> bool) \<Rightarrow> 'a list \<Rightarrow> int" where
  "findIndex p [] = -1"
| "findIndex p (x # xs) =
     (if p x then 0 else (let i = findIndex p xs in if i = -1 then -1 else i + 1))"

definition set_currentInput ::
  "page \<Rightarrow> element option \<Rightarrow> ('w, 'x) block_scheme \<Rightarrow> ('w, 'x) block_scheme" where
  "set_currentInput pg el b =
     (let (xs, b1) = inputs pg b;
          index = findIndex
            (\<lambda>input. case el of None \<Rightarrow> False
                      | Some e \<Rightarrow> input = e \<or> node_contains pg input e) xs
      in if index \<noteq> -1 then b1\<lparr>inputIndex := index\<rparr> else b1)"

definition updateCurrentInput :: "page \<Rightarrow> ('w, 'x) block_scheme \<Rightarrow> ('w, 'x) block_scheme" where
  "updateCurrentInput pg b =
     set_currentInput pg
       (if (case activeElement pg of None \<Rightarrow> False | Some e \<Rightarrow> isNativeInput pg e)
           \<or> anchorNode pg = None
        then activeElement pg else anchorNode pg) b"

subsection \<open>Calling a method of the tool\<close>

definition APPEND_CALLBACK :: string where
  "APPEND_CALLBACK = ''appendCallback''"

definition UPDATED :: string where
  "UPDATED = ''updated''"

definition call :: "'w \<Rightarrow> ('w, 'x) block_scheme \<Rightarrow> string \<Rightarrow> block_output list" where
  "call w b methodName =
     (case tool_method (toolInstance b) methodName of
        None \<Rightarrow> []
      | Some m \<Rightarrow>
          (if methodName = APPEND_CALLBACK
           then [Logged ''warn'' (''`appendCallback` hook is deprecated and will be removed in the next major release. '' @ ''Use `rendered` hook instead'') '''']
           else [])
          @ [ToolMethodCalled methodName]
          @ (case m w of
               Returns _ \<Rightarrow> []
             | Throws message \<Rightarrow>
                 [Logged ''error'' (''Error during '' @ [CHR 0x27] @ methodName @ [CHR 0x27] @ '' call: '' @ message) '''']))"

subsection \<open>From a mutation to the change event\<close>

text \<open>The function that the field \<^verbatim>\<open>didMutated\<close> wraps in a debounce: its test of the
  argument, then the function itself.\<close>

definition is_mutation_free :: "dom_node \<Rightarrow> bool" where
  "is_mutation_free node = (isElement node \<and> dataset_mutationFree node = Some ''true'')"

definition shouldFireUpdate :: "mutations_or_input_event \<Rightarrow> bool" where
  "shouldFireUpdate mutationsOrInputEvent =
     (case mutationsOrInputEvent of
        InputEvent \<Rightarrow> True
      | Mutations records \<Rightarrow>
          \<not> list_ex (\<lambda>r. list_ex is_mutation_free (addedNodes r @ removedNodes r)) records)"

definition didMutated_handler ::
  "page \<Rightarrow> 'w \<Rightarrow> ('w, 'x) block_scheme \<Rightarrow> mutations_or_input_event \<Rightarrow>
     ('w, 'x) block_scheme \<times> block_output list" where
  "didMutated_handler pg w b mutationsOrInputEvent =
     (if \<not> shouldFireUpdate mutationsOrInputEvent then (b, [])
      else
        (let b1 = b\<lparr>cachedInputs := []\<rparr>;
             b2 = updateCurrentInput pg b1
         in (b2, call w b2 UPDATED @ [Emitted ''didMutated''])))"

text \<open>The condition of the code: some record of the batch adds or removes an element that
  carries the marker.\<close>

definition some_node_mutation_free :: "mutations_or_input_event \<Rightarrow> bool" where
  "some_node_mutation_free arg =
     (case arg of InputEvent \<Rightarrow> False
      | Mutations records \<Rightarrow>
          (\<exists>r \<in> set records. \<exists>node \<in> set (addedNodes r @ removedNodes r).
             isElement node \<and> dataset_mutationFree node = Some ''true''))"

text \<open>The condition in the words of the specification: every node added or removed across
  the whole batch carries the marker.\<close>

definition every_node_marked :: "mutation_record list \<Rightarrow> bool" where
  "every_node_marked records =
     list_all (\<lambda>r. list_all (\<lambda>node. dataset_mutationFree node = Some ''true'')
                 (addedNodes r @ removedNodes r)) records"

text \<open>
  Modelled from the spec: the helper \<^verbatim>\<open>_.debounce\<close> of the utilities, which is not part of
  the sources at hand. A call arms the timer with its arguments and replaces what was
  pending ("each new mutation while pending resets the timer"); when the timer fires, the
  wrapped function runs once on the arguments of the last call.
\<close>

definition didMutated ::
  "('w, 'x) block_scheme \<Rightarrow> mutations_or_input_event \<Rightarrow> ('w, 'x) block_scheme" where
  "didMutated b mutationsOrInputEvent = b\<lparr>debounce_pending := Some mutationsOrInputEvent\<rparr>"

definition debounce_timer_fires ::
  "page \<Rightarrow> 'w \<Rightarrow> ('w, 'x) block_scheme \<Rightarrow> ('w, 'x) block_scheme \<times> block_output list" where
  "debounce_timer_fires pg w b =
     (case debounce_pending b of
        None \<Rightarrow> (b, [])
      | Some args \<Rightarrow> didMutated_handler pg w (b\<lparr>debounce_pending := None\<rparr>) args)"

definition dispatchChange :: "('w, 'x) block_scheme \<Rightarrow> ('w, 'x) block_scheme" where
  "dispatchChange b = didMutated b (Mutations [])"

subsection \<open>Selecting and unselecting\<close>

text \<open>\<^verbatim>\<open>addEventListener\<close> keeps one registration per element and kind for the same
  handler; \<^verbatim>\<open>removeEventListener\<close> drops it.\<close>

definition addEventListener ::
  "element \<Rightarrow> listener_kind \<Rightarrow> (element \<times> listener_kind) list \<Rightarrow> (element \<times> listener_kind) list" where
  "addEventListener e k ls = (if (e, k) \<in> set ls then ls else ls @ [(e, k)])"

definition removeEventListener ::
  "element \<Rightarrow> listener_kind \<Rightarrow> (element \<times> listener_kind) list \<Rightarrow> (element \<times> listener_kind) list" where
  "removeEventListener e k ls = filter (\<lambda>l. l \<noteq> (e, k)) ls"

fun add_each :: "page \<Rightarrow> element list \<Rightarrow> (element \<times> listener_kind) list \<Rightarrow> (element \<times> listener_kind) list" where
  "add_each pg [] ls = ls"
| "add_each pg (input # rest) ls =
     (let ls1 = addEventListener input FocusListener ls;
          ls2 = (if isNativeInput pg input then addEventListener input InputListener ls1 else ls1)
      in add_each pg rest ls2)"

fun remove_each :: "page \<Rightarrow> element list \<Rightarrow> (element \<times> listener_kind) list \<Rightarrow> (element \<times> listener_kind) list" where
  "remove_each pg [] ls = ls"
| "remove_each pg (input # rest) ls =
     (let ls1 = removeEventListener input FocusListener ls;
          ls2 = (if isNativeInput pg input then removeEventListener input InputListener ls1 else ls1)
      in remove_each pg rest ls2)"

definition addInputEvents :: "page \<Rightarrow> ('w, 'x) block_scheme \<Rightarrow> ('w, 'x) block_scheme" where
  "addInputEvents pg b =
     (let (xs, b1) = inputs pg b in b1\<lparr>listeners := add_each pg xs (listeners b1)\<rparr>)"

definition removeInputEvents :: "page \<Rightarrow> ('w, 'x) block_scheme \<Rightarrow> ('w, 'x) block_scheme" where
  "removeInputEvents pg b =
     (let (xs, b1) = inputs pg b in b1\<lparr>listeners := remove_each pg xs (listeners b1)\<rparr>)"

definition willSelect :: "page \<Rightarrow> ('w, 'x) block_scheme \<Rightarrow> ('w, 'x) block_scheme" where
  "willSelect pg b = addInputEvents pg (b\<lparr>observer_connected := True\<rparr>)"

definition willUnselect :: "page \<Rightarrow> ('w, 'x) block_scheme \<Rightarrow> ('w, 'x) block_scheme" where
  "willUnselect pg b = removeInputEvents pg (b\<lparr>observer_connected := False\<rparr>)"

text \<open>
  What the page does with the Block's registrations: a mutation observer delivers a batch
  of records to its callback only while it is connected, and an element delivers an event
  to a handler only while the handler is registered on it. The callback and the handler of
  \<^verbatim>\<open>input\<close> events are both the debounced \<^verbatim>\<open>didMutated\<close>; the handler of \<^verbatim>\<open>focus\<close> events is
  \<^verbatim>\<open>handleFocus\<close>, which drops the cache and updates the current input.
\<close>

datatype page_event =
    DomMutation "mutation_record list"
  | NativeInput element
  | Focus element
  | TimerFires

definition handleFocus :: "page \<Rightarrow> ('w, 'x) block_scheme \<Rightarrow> ('w, 'x) block_scheme" where
  "handleFocus pg b = updateCurrentInput pg (b\<lparr>cachedInputs := []\<rparr>)"

definition deliver ::
  "page \<Rightarrow> 'w \<Rightarrow> ('w, 'x) block_scheme \<Rightarrow> page_event \<Rightarrow> ('w, 'x) block_scheme \<times> block_output list" where
  "deliver pg w b ev =
     (case ev of
        DomMutation records \<Rightarrow>
          (if observer_connected b then (didMutated b (Mutations records), []) else (b, []))
      | NativeInput e \<Rightarrow>
          (if (e, InputListener) \<in> set (listeners b) then (didMutated b InputEvent, []) else (b, []))
      | Focus e \<Rightarrow>
          (if (e, FocusListener) \<in> set (listeners b) then (handleFocus pg b, []) else (b, []))
      | TimerFires \<Rightarrow> debounce_timer_fires pg w b)"

text \<open>A run of page events, the outputs of the Block collected in order.\<close>

fun run ::
  "page \<Rightarrow> 'w \<Rightarrow> ('w, 'x) block_scheme \<Rightarrow> page_event list \<Rightarrow> ('w, 'x) block_scheme \<times> block_output list" where
  "run pg w b [] = (b, [])"
| "run pg w b (ev # evs) =
     (let (b1, out1) = deliver pg w b ev; (b2, out2) = run pg w b1 evs in (b2, out1 @ out2))"

subsection \<open>Construction: the tunes of a Block\<close>

text \<open>\<^verbatim>\<open>composeTunes\<close>: every tune of the tool is instantiated on its entry of \<^verbatim>\<open>tunesData\<close> and
  filed under its name with the internal or with the user's tunes; then every entry of
  \<^verbatim>\<open>tunesData\<close> whose name is not among the user's tunes is assigned to
  \<^verbatim>\<open>unavailableTunesData\<close> under its name (\<^verbatim>\<open>this.unavailableTunesData[name] = data\<close>).\<close>

fun create_tunes ::
  "jobject \<Rightarrow> 'w block_tune list \<Rightarrow>
   (string \<times> 'w tune_instance) list \<times> (string \<times> 'w tune_instance) list \<Rightarrow>
   (string \<times> 'w tune_instance) list \<times> (string \<times> 'w tune_instance) list" where
  "create_tunes tunesData [] (user, internal) = (user, internal)"
| "create_tunes tunesData (tune # rest) (user, internal) =
     (let instance = tune_create tune (obj_read tunesData (tune_name tune))
      in if isInternal tune
         then create_tunes tunesData rest (user, obj_set internal (tune_name tune) instance)
         else create_tunes tunesData rest (obj_set user (tune_name tune) instance, internal))"

fun keep_unavailable ::
  "(string \<times> 'w tune_instance) list \<Rightarrow> (string \<times> jvalue) list \<Rightarrow> jobject \<Rightarrow> jobject" where
  "keep_unavailable user [] bag = bag"
| "keep_unavailable user ((name, data) # rest) bag =
     (if \<not> obj_has user name
      then keep_unavailable user rest (obj_assign bag name data)
      else keep_unavailable user rest bag)"

definition composeTunes ::
  "store \<Rightarrow> ('w, 'x) block_scheme \<Rightarrow> 'w block_tune list \<Rightarrow> jobject \<Rightarrow>
     store \<times> ('w, 'x) block_scheme" where
  "composeTunes st b tunes tunesData =
     (let (user, internal) = create_tunes tunesData tunes (tunesInstances b, defaultTunesInstances b);
          b1 = b\<lparr>tunesInstances := user, defaultTunesInstances := internal\<rparr>;
          a = unavailableTunesData b1
      in (st(a := keep_unavailable user tunesData (st a)), b1))"

text \<open>The constructor, as far as the fields of the record go: \<open>a\<close> is the address of the
  fresh object of \<^verbatim>\<open>unavailableTunesData\<close>, \<open>tool\<close> the instance that \<^verbatim>\<open>tool.create\<close> returned.\<close>

definition Block_new ::
  "store \<Rightarrow> addr \<Rightarrow> string \<Rightarrow> string \<Rightarrow> 'w tool_instance \<Rightarrow> 'w block_tune list \<Rightarrow> jobject \<Rightarrow>
     store \<times> 'w block" where
  "Block_new st a ident name tool tunes tunesData =
     composeTunes (st(a := []))
       \<lparr>block_id = ident, block_name = name, toolInstance = tool,
        tunesInstances = [], defaultTunesInstances = [], unavailableTunesData = a,
        cachedInputs = [], inputIndex = 0, observer_connected = False, listeners = [],
        debounce_pending = None\<rparr>
       tunes tunesData"

subsection \<open>Saving\<close>

record saved_data =
  sd_id :: string
  sd_tool :: string
  sd_data :: jvalue
  sd_tunes :: addr
  sd_time :: real

text \<open>\<^verbatim>\<open>await\<close> on what the tool's \<^verbatim>\<open>save\<close> did: a value goes on, a throw or a rejected promise
  leaves the \<^verbatim>\<open>async\<close> function at once, rejecting the promise it returned.\<close>

definition await_save :: "tool_save_result \<Rightarrow> js_error + jvalue" where
  "await_save r =
     (case r of
        SaveReturns v \<Rightarrow> Inr v
      | SaveResolves v \<Rightarrow> Inr v
      | SaveThrows e \<Rightarrow> Inl e
      | SaveRejects e \<Rightarrow> Inl e)"

text \<open>The loop over the entries of the user's tunes, then of the internal ones. The names
  here are names under which tunes are registered, and no tune is taken to be registered
  as \<^verbatim>\<open>__proto__\<close>, so \<^verbatim>\<open>tunesData[name] = tune.save()\<close> writes an own property.\<close>

fun save_tunes ::
  "'w \<Rightarrow> (string \<times> 'w tune_instance) list \<Rightarrow> jobject \<Rightarrow> jobject \<times> block_output list" where
  "save_tunes w [] tunesData = (tunesData, [])"
| "save_tunes w ((name, tune) # rest) tunesData =
     (case tune_save tune of
        None \<Rightarrow> save_tunes w rest tunesData
      | Some save \<Rightarrow>
          (case save w of
             Returns v \<Rightarrow> save_tunes w rest (obj_set tunesData name v)
           | Throws e \<Rightarrow>
               (let (bag, out) = save_tunes w rest tunesData
                in (bag, Logged ''warn'' (''Tune '' @ tune_class tune @ '' save method throws an Error %o'') e # out))))"

text \<open>\<^verbatim>\<open>save()\<close>. \<open>t0\<close> and \<open>t1\<close> are the two readings of \<^verbatim>\<open>window.performance.now()\<close>.\<close>

definition Block_save ::
  "store \<Rightarrow> 'w \<Rightarrow> real \<Rightarrow> real \<Rightarrow> ('w, 'x) block_scheme \<Rightarrow>
     store \<times> block_output list \<times> saved_data option promise" where
  "Block_save st w t0 t1 b =
     (case await_save (tool_save (toolInstance b) w) of
        Inl e \<Rightarrow> (st, [], Rejected e)
      | Inr extractedBlock \<Rightarrow>
          (let tunesData = unavailableTunesData b;
               (bag, out) = save_tunes w (tunesInstances b @ defaultTunesInstances b) (st tunesData);
               st1 = st(tunesData := bag);
               measuringStart = t0;
               chain = promise_then (Resolved extractedBlock)
                 (\<lambda>finishedExtraction.
                    (let measuringEnd = t1
                     in Resolved \<lparr>sd_id = block_id b, sd_tool = block_name b,
                          sd_data = finishedExtraction, sd_tunes = tunesData,
                          sd_time = measuringEnd - measuringStart\<rparr>))
           in (case chain of
                 Resolved r \<Rightarrow> (st1, out, Resolved (Some r))
               | Rejected error \<Rightarrow>
                   (st1,
                    out @ [Logged ''log'' (''Saving proccess for '' @ block_name b @ '' tool failed due to the '' @ error) ''red''],
                    Resolved None))))"

text \<open>The content of the tunes bag of the result of a \<^verbatim>\<open>save()\<close>, read in the store that
  the call left; empty when the call gave no result.\<close>

definition saved_tunes :: "store \<times> block_output list \<times> saved_data option promise \<Rightarrow> jobject" where
  "saved_tunes res =
     (case snd (snd res) of Resolved (Some r) \<Rightarrow> fst res (sd_tunes r) | _ \<Rightarrow> [])"

text \<open>The getter \<^verbatim>\<open>data\<close>. \<open>isEmpty\<close> stands for the helper \<^verbatim>\<open>_.isEmpty\<close> of the utilities.\<close>

definition Block_data ::
  "(jvalue \<Rightarrow> bool) \<Rightarrow> store \<Rightarrow> 'w \<Rightarrow> real \<Rightarrow> real \<Rightarrow> ('w, 'x) block_scheme \<Rightarrow>
     store \<times> block_output list \<times> jvalue promise" where
  "Block_data isEmpty st w t0 t1 b =
     (let (st1, out, p) = Block_save st w t0 t1 b
      in (st1, out,
          promise_then p
            (\<lambda>savedObject.
               case savedObject of
                 None \<Rightarrow> Resolved (JObj [])
               | Some so \<Rightarrow>
                   if \<not> isEmpty (sd_data so) then Resolved (sd_data so) else Resolved (JObj []))))"

subsection \<open>The active entry of the toolbox\<close>

record toolbox_entry =
  entry_title :: string
  entry_data :: "jobject option"

text \<open>\<^verbatim>\<open>blockData[propName]\<close>: reading a property of \<^verbatim>\<open>null\<close> or \<^verbatim>\<open>undefined\<close> throws; of an
  object it gives the own property of that name or \<^verbatim>\<open>undefined\<close>. Values that are no
  objects carry no properties of their own here.\<close>

definition prop_read :: "jvalue \<Rightarrow> string \<Rightarrow> jvalue outcome" where
  "prop_read v k =
     (case v of
        JUndefined \<Rightarrow> Throws ''TypeError''
      | JNull \<Rightarrow> Throws ''TypeError''
      | JObj obj \<Rightarrow> Returns (obj_read obj k)
      | _ \<Rightarrow> Returns JUndefined)"

text \<open>The callback of \<^verbatim>\<open>some\<close> over the entries of \<^verbatim>\<open>item.data\<close>, for one entry. \<open>equals\<close> stands
  for the helper \<^verbatim>\<open>_.equals\<close> of the utilities.\<close>

fun some_prop_matches ::
  "(jvalue \<Rightarrow> jvalue \<Rightarrow> bool) \<Rightarrow> jvalue \<Rightarrow> (string \<times> jvalue) list \<Rightarrow> bool outcome" where
  "some_prop_matches equals blockData [] = Returns False"
| "some_prop_matches equals blockData ((propName, propValue) # rest) =
     (case prop_read blockData propName of
        Throws e \<Rightarrow> Throws e
      | Returns v \<Rightarrow>
          if truthy v \<and> equals v propValue then Returns True
          else some_prop_matches equals blockData rest)"

text \<open>\<^verbatim>\<open>toolboxItems.find(...)\<close>. \<^verbatim>\<open>Object.entries\<close> of a missing \<^verbatim>\<open>data\<close> throws.\<close>

fun toolbox_find ::
  "(jvalue \<Rightarrow> jvalue \<Rightarrow> bool) \<Rightarrow> jvalue \<Rightarrow> toolbox_entry list \<Rightarrow> toolbox_entry option promise" where
  "toolbox_find equals blockData [] = Resolved None"
| "toolbox_find equals blockData (item # rest) =
     (case entry_data item of
        None \<Rightarrow> Rejected ''TypeError''
      | Some d \<Rightarrow>
          (case some_prop_matches equals blockData d of
             Throws e \<Rightarrow> Rejected e
           | Returns True \<Rightarrow> Resolved (Some item)
           | Returns False \<Rightarrow> toolbox_find equals blockData rest))"

definition getActiveToolboxEntry ::
  "(jvalue \<Rightarrow> jvalue \<Rightarrow> bool) \<Rightarrow> (jvalue \<Rightarrow> bool) \<Rightarrow> toolbox_entry list \<Rightarrow>
   store \<Rightarrow> 'w \<Rightarrow> real \<Rightarrow> real \<Rightarrow> ('w, 'x) block_scheme \<Rightarrow>
     store \<times> block_output list \<times> toolbox_entry option promise" where
  "getActiveToolboxEntry equals isEmpty toolboxSettings st w t0 t1 b =
     (if length toolboxSettings = 1 then (st, [], Resolved (array_at toolboxSettings 0))
      else
        (let (st1, out, dataPromise) = Block_data isEmpty st w t0 t1 b
         in (st1, out,
             promise_then dataPromise (\<lambda>blockData. toolbox_find equals blockData toolboxSettings))))"

text \<open>What the callback of \<^verbatim>\<open>find\<close> tests on data that is an object: some declared key has a
  truthy value in the Block's data that equals the declared value.\<close>

definition some_prop_equal :: "(jvalue \<Rightarrow> jvalue \<Rightarrow> bool) \<Rightarrow> jobject \<Rightarrow> toolbox_entry \<Rightarrow> bool" where
  "some_prop_equal equals blockData item =
     (case entry_data item of
        None \<Rightarrow> False
      | Some d \<Rightarrow>
          list_ex (\<lambda>(propName, propValue).
                     truthy (obj_read blockData propName)
                     \<and> equals (obj_read blockData propName) propValue) d)"

text \<open>In the words of the specification: an entry matches when all of its declared data
  keys equal the Block's values, and the first such entry is the active one.\<close>

definition all_props_match :: "(jvalue \<Rightarrow> jvalue \<Rightarrow> bool) \<Rightarrow> jobject \<Rightarrow> jobject \<Rightarrow> bool" where
  "all_props_match equals blockData d =
     list_all (\<lambda>(propName, propValue). equals (obj_read blockData propName) propValue) d"

definition spec_active_entry ::
  "(jvalue \<Rightarrow> jvalue \<Rightarrow> bool) \<Rightarrow> jobject \<Rightarrow> toolbox_entry list \<Rightarrow> toolbox_entry option" where
  "spec_active_entry equals blockData toolbox =
     (if length toolbox = 1 then Some (hd toolbox)
      else find (\<lambda>item. case entry_data item of
                          None \<Rightarrow> True
                        | Some d \<Rightarrow> all_props_match equals blockData d) toolbox)"

section \<open>The link tool\<close>

subsection \<open>Regular expressions\<close>

text \<open>
  The patterns of the link tool use no back references and no look-around, so
  \<^verbatim>\<open>RegExp.prototype.test\<close> decides membership in a regular language, and the model decides it
  with derivatives. A character is a code unit below 256. An atom is a predicate on
  characters; under the flag \<^verbatim>\<open>i\<close> a class of lower-case letters takes the upper-case ones too.
\<close>

datatype rx =
    Nul
  | Eps
  | Sym "char \<Rightarrow> bool"
  | Alt rx rx
  | Seq rx rx
  | Star rx

fun nullable :: "rx \<Rightarrow> bool" where
  "nullable Nul = False"
| "nullable Eps = True"
| "nullable (Sym p) = False"
| "nullable (Alt r s) = (nullable r \<or> nullable s)"
| "nullable (Seq r s) = (nullable r \<and> nullable s)"
| "nullable (Star r) = True"

fun alt :: "rx \<Rightarrow> rx \<Rightarrow> rx" where
  "alt Nul s = s"
| "alt r Nul = r"
| "alt r s = Alt r s"

fun seq :: "rx \<Rightarrow> rx \<Rightarrow> rx" where
  "seq Nul s = Nul"
| "seq r Nul = Nul"
| "seq Eps s = s"
| "seq r s = Seq r s"

fun deriv :: "char \<Rightarrow> rx \<Rightarrow> rx" where
  "deriv c Nul = Nul"
| "deriv c Eps = Nul"
| "deriv c (Sym p) = (if p c then Eps else Nul)"
| "deriv c (Alt r s) = alt (deriv c r) (deriv c s)"
| "deriv c (Seq r s) =
     (if nullable r then alt (seq (deriv c r) s) (deriv c s) else seq (deriv c r) s)"
| "deriv c (Star r) = seq (deriv c r) (Star r)"

text \<open>A pattern between \<^verbatim>\<open>^\<close> and \<^verbatim>\<open>$\<close> has to take the whole string.\<close>

fun test_whole :: "rx \<Rightarrow> string \<Rightarrow> bool" where
  "test_whole r [] = nullable r"
| "test_whole r (c # cs) = test_whole (deriv c r) cs"

text \<open>A pattern after \<^verbatim>\<open>^\<close> with no \<^verbatim>\<open>$\<close> has to take some prefix of the string.\<close>

fun test_prefix :: "rx \<Rightarrow> string \<Rightarrow> bool" where
  "test_prefix r [] = nullable r"
| "test_prefix r (c # cs) = (nullable r \<or> test_prefix (deriv c r) cs)"

text \<open>The language of a pattern, against which the two tests are proved right below.\<close>

inductive_set repeated :: "string set \<Rightarrow> string set" for A :: "string set" where
  none: "[] \<in> repeated A"
| more: "u \<in> A \<Longrightarrow> v \<in> repeated A \<Longrightarrow> u @ v \<in> repeated A"

fun lang :: "rx \<Rightarrow> string set" where
  "lang Nul = {}"
| "lang Eps = {[]}"
| "lang (Sym p) = {[c] | c. p c}"
| "lang (Alt r s) = lang r \<union> lang s"
| "lang (Seq r s) = {u @ v | u v. u \<in> lang r \<and> v \<in> lang s}"
| "lang (Star r) = repeated (lang r)"

definition Opt :: "rx \<Rightarrow> rx" where
  "Opt r = Alt r Eps"

definition Plus :: "rx \<Rightarrow> rx" where
  "Plus r = Seq r (Star r)"

definition Chr :: "char \<Rightarrow> rx" where
  "Chr c = Sym (\<lambda>x. x = c)"

definition code :: "char \<Rightarrow> nat" where
  "code c = of_char c"

definition is_digit :: "char \<Rightarrow> bool" where
  "is_digit c = (48 \<le> code c \<and> code c \<le> 57)"

definition is_lower :: "char \<Rightarrow> bool" where
  "is_lower c = (97 \<le> code c \<and> code c \<le> 122)"

definition is_upper :: "char \<Rightarrow> bool" where
  "is_upper c = (65 \<le> code c \<and> code c \<le> 90)"

text \<open>\<^verbatim>\<open>[a-z]\<close> under the flag \<^verbatim>\<open>i\<close>.\<close>

definition is_letter :: "char \<Rightarrow> bool" where
  "is_letter c = (is_lower c \<or> is_upper c)"

text \<open>\<^verbatim>\<open>\w\<close> and \<^verbatim>\<open>\s\<close>.\<close>

definition is_word :: "char \<Rightarrow> bool" where
  "is_word c = (is_letter c \<or> is_digit c \<or> c = CHR ''_'')"

definition is_space :: "char \<Rightarrow> bool" where
  "is_space c = (code c \<in> {9, 10, 11, 12, 13, 32, 160})"

text \<open>A letter of the pattern under the flag \<^verbatim>\<open>i\<close>: itself in either case.\<close>

definition same_letter :: "char \<Rightarrow> char \<Rightarrow> bool" where
  "same_letter a x =
     (x = a \<or> (is_lower a \<and> code x + 32 = code a) \<or> (is_upper a \<and> code x = code a + 32))"

definition Chr_i :: "char \<Rightarrow> rx" where
  "Chr_i a = Sym (same_letter a)"

subsection \<open>Validation and preparation of the link\<close>

text \<open>The pattern of \<^verbatim>\<open>validateURL\<close>, piece by piece as the source concatenates it.\<close>

definition rx_protocol :: rx where
  \<comment> \<open>\<^verbatim>\<open>(https?:\/\/)?\<close>\<close>
  "rx_protocol =
     Opt (Seq (Chr_i CHR ''h'') (Seq (Chr_i CHR ''t'') (Seq (Chr_i CHR ''t'') (Seq (Chr_i CHR ''p'')
       (Seq (Opt (Chr_i CHR ''s'')) (Seq (Chr CHR '':'') (Seq (Chr CHR ''/'') (Chr CHR ''/''))))))))"

definition rx_domain :: rx where
  \<comment> \<open>\<^verbatim>\<open>(([a-z\d]([a-z\d-]*[a-z\d])*)\.)+[a-z]{2,}\<close>\<close>
  "rx_domain =
     (let alnum = Sym (\<lambda>c. is_letter c \<or> is_digit c);
          alnum_dash = Sym (\<lambda>c. is_letter c \<or> is_digit c \<or> c = CHR ''-'');
          label = Seq alnum (Star (Seq (Star alnum_dash) alnum))
      in Seq (Plus (Seq label (Chr CHR ''.'')))
             (Seq (Sym is_letter) (Seq (Sym is_letter) (Star (Sym is_letter)))))"

definition rx_digits_1_3 :: rx where
  \<comment> \<open>\<^verbatim>\<open>\d{1,3}\<close>\<close>
  "rx_digits_1_3 = Seq (Sym is_digit) (Opt (Seq (Sym is_digit) (Opt (Sym is_digit))))"

definition rx_ip :: rx where
  \<comment> \<open>\<^verbatim>\<open>(\d{1,3}\.){3}\d{1,3}\<close>\<close>
  "rx_ip =
     (let part = Seq rx_digits_1_3 (Chr CHR ''.'')
      in Seq part (Seq part (Seq part rx_digits_1_3)))"

definition rx_port_and_path :: rx where
  \<comment> \<open>\<^verbatim>\<open>(\:\d+)?(\/[-a-z\d%_.~+]*)*\<close>\<close>
  "rx_port_and_path =
     Seq (Opt (Seq (Chr CHR '':'') (Plus (Sym is_digit))))
         (Star (Seq (Chr CHR ''/'')
                    (Star (Sym (\<lambda>c. is_letter c \<or> is_digit c \<or> c \<in> set ''-%_.~+'')))))"

definition rx_query :: rx where
  \<comment> \<open>\<^verbatim>\<open>(\?[;&a-z\d%_.~+=-]*)?\<close>\<close>
  "rx_query =
     Opt (Seq (Chr CHR ''?'')
              (Star (Sym (\<lambda>c. is_letter c \<or> is_digit c \<or> c \<in> set '';&%_.~+=-''))))"

definition rx_fragment :: rx where
  \<comment> \<open>\<^verbatim>\<open>(\#[-a-z\d_]*)?\<close>\<close>
  "rx_fragment =
     Opt (Seq (Chr CHR ''#'')
              (Star (Sym (\<lambda>c. is_letter c \<or> is_digit c \<or> c \<in> set ''-_''))))"

definition url_pattern :: rx where
  "url_pattern =
     Seq rx_protocol (Seq (Alt rx_domain rx_ip) (Seq rx_port_and_path (Seq rx_query rx_fragment)))"

definition validateURL :: "string \<Rightarrow> bool" where
  "validateURL str = test_whole url_pattern str"

text \<open>\<^verbatim>\<open>String.prototype.trim\<close>.\<close>

definition trim :: "string \<Rightarrow> string" where
  "trim s = rev (dropWhile is_space (rev (dropWhile is_space s)))"

definition has_protocol :: "string \<Rightarrow> bool" where
  \<comment> \<open>\<^verbatim>\<open>/^(\w+):(\/\/)?/\<close>\<close>
  "has_protocol link =
     test_prefix (Seq (Plus (Sym is_word))
                   (Seq (Chr CHR '':'') (Opt (Seq (Chr CHR ''/'') (Chr CHR ''/''))))) link"

definition addProtocol :: "string \<Rightarrow> string" where
  "addProtocol link =
     (if has_protocol link then link
      else
        (let isInternal = test_prefix (Seq (Chr CHR ''/'') (Sym (\<lambda>c. c \<noteq> CHR ''/'' \<and> \<not> is_space c))) link;
             isAnchor = (take 1 link = ''#'');
             isProtocolRelative =
               test_prefix (Seq (Chr CHR ''/'') (Seq (Chr CHR ''/'')
                             (Sym (\<lambda>c. c \<noteq> CHR ''/'' \<and> \<not> is_space c)))) link
         in if \<not> isInternal \<and> \<not> isAnchor \<and> \<not> isProtocolRelative
            then ''https://'' @ link else link))"

definition prepareLink :: "string \<Rightarrow> string" where
  "prepareLink link = addProtocol (trim link)"

subsection \<open>Confirming the input\<close>

text \<open>
  The fields of the tool that \<^verbatim>\<open>enterPressed\<close> and \<^verbatim>\<open>closeActions\<close> touch, and the calls they make
  on the selection utility, the document, the event and the editor's API. What the
  selection utility answers is an input: whether its fake background is on, and whether
  the selection has an anchor tag around it before and after the link is created.
\<close>

record link_tool =
  input_value :: string
  inputOpened :: bool
  label_showed :: bool
  button_hover :: bool

record selection_answers =
  isFakeBackgroundEnabled :: bool
  anchor_before :: bool
  anchor_after :: bool

datatype link_call =
    SelectionRestore
  | SelectionRemoveFakeBackground
  | SelectionClearSaved
  | SelectionCollapseToEnd
  | SelectionExpandToTag
  | CurrentSelectionSave
  | CurrentSelectionRestore
  | ExecCommand string string
  | SetAnchorProperty string string
  | EventPreventDefault
  | EventStopPropagation
  | EventStopImmediatePropagation
  | TooltipShow string string
  | SetTimeoutTooltipHide nat
  | Log string string string
  | InlineToolbarClose
  | Uncaught js_error

definition closeActions :: "selection_answers \<Rightarrow> bool \<Rightarrow> link_tool \<Rightarrow> link_tool \<times> link_call list" where
  "closeActions sel clearSavedSelection t =
     (t\<lparr>label_showed := False, input_value := '''', inputOpened := False, button_hover := False\<rparr>,
      (if isFakeBackgroundEnabled sel
       then [CurrentSelectionSave, SelectionRestore, SelectionRemoveFakeBackground,
             CurrentSelectionRestore]
       else [])
      @ (if clearSavedSelection then [SelectionClearSaved] else []))"

text \<open>\<^verbatim>\<open>insertLink\<close>; the second component tells whether it returned (writing a property
  of a missing anchor throws).\<close>

definition insertLink :: "selection_answers \<Rightarrow> string \<Rightarrow> link_call list \<times> bool" where
  "insertLink sel link =
     ((if anchor_before sel then [SelectionExpandToTag] else [])
      @ [ExecCommand ''createLink'' link]
      @ (if anchor_after sel
         then [SetAnchorProperty ''target'' ''_blank'',
               SetAnchorProperty ''rel'' ''noopener noreferrer'']
         else [Uncaught ''TypeError'']),
      anchor_after sel)"

definition enterPressed :: "selection_answers \<Rightarrow> link_tool \<Rightarrow> link_tool \<times> link_call list" where
  "enterPressed sel t =
     (let value = input_value t
      in if trim value = ''''
         then
           (let (t1, calls) = closeActions sel True t
            in (t1, [SelectionRestore, ExecCommand ''unlink'' '''', EventPreventDefault] @ calls))
         else if \<not> validateURL value
         then
           (t, [TooltipShow ''The URL is not valid.'' ''top'', SetTimeoutTooltipHide 1000,
                Log ''Incorrect Link pasted'' ''warn'' value])
         else
           (let value1 = prepareLink value;
                (calls, returned) = insertLink sel value1
            in (t, [SelectionRestore, SelectionRemoveFakeBackground] @ calls
                   @ (if returned
                      then [EventPreventDefault, EventStopPropagation,
                            EventStopImmediatePropagation, SelectionCollapseToEnd,
                            InlineToolbarClose]
                      else []))))"

text \<open>What \<^verbatim>\<open>enterPressed\<close> does with a value that fails validation: the tooltip, the timer of
  1000 ms that hides it, and the warning in the log.\<close>

definition invalid_url_calls :: "string \<Rightarrow> link_call list" where
  "invalid_url_calls value =
     [TooltipShow ''The URL is not valid.'' ''top'', SetTimeoutTooltipHide 1000,
      Log ''Incorrect Link pasted'' ''warn'' value]"

section \<open>Block tunes: move up and move down\<close>

text \<open>
  The tunes of \<^verbatim>\<open>block-tune-move-up.ts\<close> and \<^verbatim>\<open>block-tune-move-down.ts\<close> talk to the editor
  through its API only. A click handler is modelled by the sequence of calls it makes: the
  answers of the API queries and the geometry read from the DOM are its inputs. Pixel
  values are \<open>real\<close>, block indices are \<open>int\<close> (the index query of the API answers
  \<open>-1\<close> when no block is current).
\<close>

datatype timer_callback = ButtonClassRemove string

datatype tune_call =
    ButtonClassAdd string
  | SetTimeout timer_callback nat
  | WindowScrollBy real real
  | WindowScrollTo real real
  | BlocksMove int
  | TooltipHide

text \<open>What a handler reads of a block returned by \<^verbatim>\<open>getBlockByIndex\<close>: its holder's
  \<^verbatim>\<open>getBoundingClientRect().top\<close> and \<^verbatim>\<open>offsetHeight\<close>.\<close>

record block_holder =
  rect_top :: real
  offsetHeight :: real

record window_geometry =
  innerHeight :: real
  scrollY :: real

definition CSS_animation :: string where
  "CSS_animation = ''wobble''"

definition MoveDownTune_handleClick ::
  "int \<Rightarrow> (int \<Rightarrow> block_holder option) \<Rightarrow> window_geometry \<Rightarrow> tune_call list" where
  "MoveDownTune_handleClick currentBlockIndex getBlockByIndex win =
     (case getBlockByIndex (currentBlockIndex + 1) of
        None \<Rightarrow> [ButtonClassAdd CSS_animation, SetTimeout (ButtonClassRemove CSS_animation) 500]
      | Some nextBlock \<Rightarrow>
          (let scrollOffset = \<bar>innerHeight win - offsetHeight nextBlock\<bar>;
               scrollOffset' = (if rect_top nextBlock < innerHeight win
                                then scrollY win + offsetHeight nextBlock
                                else scrollOffset)
           in [WindowScrollTo 0 scrollOffset', BlocksMove (currentBlockIndex + 1), TooltipHide]))"

definition MoveUpTune_handleClick ::
  "int \<Rightarrow> (int \<Rightarrow> block_holder option) \<Rightarrow> window_geometry \<Rightarrow> tune_call list" where
  "MoveUpTune_handleClick currentBlockIndex getBlockByIndex win =
     (let currentBlock = getBlockByIndex currentBlockIndex;
          previousBlock = getBlockByIndex (currentBlockIndex - 1)
      in if currentBlockIndex = 0 \<or> currentBlock = None \<or> previousBlock = None
         then [ButtonClassAdd CSS_animation, SetTimeout (ButtonClassRemove CSS_animation) 500]
         else
           (let currentTop = rect_top (the currentBlock);
                previousTop = rect_top (the previousBlock);
                scrollUpOffset = (if previousTop > 0
                                  then \<bar>currentTop\<bar> - \<bar>previousTop\<bar>
                                  else innerHeight win - \<bar>currentTop\<bar> + \<bar>previousTop\<bar>)
            in [WindowScrollBy 0 (-1 * scrollUpOffset), BlocksMove (currentBlockIndex - 1),
                TooltipHide]))"

text \<open>The block order after the calls of a handler have run, for any implementation
  \<open>move\<close> of the API's reordering call; no other call of a tune touches the order.\<close>

fun blocks_after :: "(int \<Rightarrow> 'b list \<Rightarrow> 'b list) \<Rightarrow> tune_call list \<Rightarrow> 'b list \<Rightarrow> 'b list" where
  "blocks_after move [] bs = bs"
| "blocks_after move (BlocksMove i # cs) bs = blocks_after move cs (move i bs)"
| "blocks_after move (_ # cs) bs = blocks_after move cs bs"

definition moves_of :: "tune_call list \<Rightarrow> int list" where
  "moves_of cs = concat (map (\<lambda>c. case c of BlocksMove i \<Rightarrow> [i] | _ \<Rightarrow> []) cs)"

section \<open>Examples\<close>

subsection \<open>Blocks and pages\<close>

text \<open>A paragraph with two inputs, the second a native one, and a page on which the Block
  has no input at all. The world of the examples is a flag that tunes may consult.\<close>

definition example_tool :: "bool tool_instance" where
  "example_tool =
     \<lparr>tool_save = (\<lambda>w. SaveReturns (JObj [(''text'', JStr ''Hello'')])),
      tool_method = (\<lambda>m. if m = ''updated'' then Some (\<lambda>w. Returns ()) else None)\<rparr>"

definition example_block :: "bool block" where
  "example_block = snd (Block_new (\<lambda>a. []) 0 ''b1'' ''paragraph'' example_tool [] [])"

definition example_page :: page where
  "example_page =
     \<lparr>findAllInputs = [1, 2], node_contains = (\<lambda>a b. False), isNativeInput = (\<lambda>e. e = 2),
      activeElement = Some 2, anchorNode = None\<rparr>"

definition bare_page :: page where
  "bare_page =
     \<lparr>findAllInputs = [], node_contains = (\<lambda>a b. False), isNativeInput = (\<lambda>e. False),
      activeElement = None, anchorNode = None\<rparr>"

definition marked_node :: dom_node where
  "marked_node = \<lparr>isElement = True, dataset_mutationFree = Some ''true''\<rparr>"

definition plain_node :: dom_node where
  "plain_node = \<lparr>isElement = True, dataset_mutationFree = None\<rparr>"

subsection \<open>Tunes and saves\<close>

text \<open>A tool whose \<^verbatim>\<open>save\<close> throws; a tune that saves its alignment while the world's flag is up
  and throws when it is down; a tune that saves the data it was created with. The Block of
  the examples is loaded with data for the second tune and for a tune \<^verbatim>\<open>footnote\<close> that is not
  registered, saved twice, and loaded again from what the first save gave.\<close>

definition failing_tool :: "bool tool_instance" where
  "failing_tool =
     \<lparr>tool_save = (\<lambda>w. SaveThrows ''cannot read block''), tool_method = (\<lambda>m. None)\<rparr>"

definition align_tune :: "bool block_tune" where
  "align_tune =
     \<lparr>tune_name = ''align'', isInternal = False,
      tune_create = (\<lambda>data.
        \<lparr>tune_class = ''AlignTune'',
         tune_save = Some (\<lambda>w. if w then Returns (JStr ''left'') else Throws ''broken'')\<rparr>)\<rparr>"

definition anchor_tune :: "bool block_tune" where
  "anchor_tune =
     \<lparr>tune_name = ''anchor'', isInternal = False,
      tune_create = (\<lambda>data. \<lparr>tune_class = ''AnchorTune'', tune_save = Some (\<lambda>w. Returns data)\<rparr>)\<rparr>"

definition tuned_start :: "store \<times> bool block" where
  "tuned_start =
     Block_new (\<lambda>a. []) 0 ''b2'' ''paragraph'' example_tool [align_tune, anchor_tune]
       [(''anchor'', JStr ''intro''), (''footnote'', JStr ''kept'')]"

definition first_save :: "store \<times> block_output list \<times> saved_data option promise" where
  "first_save = Block_save (fst tuned_start) True 0 1 (snd tuned_start)"

definition second_save :: "store \<times> block_output list \<times> saved_data option promise" where
  "second_save = Block_save (fst first_save) False 2 3 (snd tuned_start)"

definition align_instance :: "bool tune_instance" where
  "align_instance = tune_create align_tune JUndefined"

definition align_save :: "bool \<Rightarrow> jvalue outcome" where
  "align_save w = (if w then Returns (JStr ''left'') else Throws ''broken'')"

definition reloaded_start :: "store \<times> bool block" where
  "reloaded_start =
     Block_new (fst first_save) 1 ''b2'' ''paragraph'' example_tool [anchor_tune]
       (saved_tunes first_save)"

definition reloaded_save :: "store \<times> block_output list \<times> saved_data option promise" where
  "reloaded_save = Block_save (fst reloaded_start) True 4 5 (snd reloaded_start)"

text \<open>A Block with no tune, loaded from data with the own keys \<^verbatim>\<open>__proto__\<close> and \<^verbatim>\<open>footnote\<close>,
  and its save.\<close>

definition proto_start :: "store \<times> bool block" where
  "proto_start =
     Block_new (\<lambda>a. []) 0 ''b3'' ''paragraph'' example_tool []
       [(''__proto__'', JStr ''kept''), (''footnote'', JStr ''note'')]"

definition proto_save :: "store \<times> block_output list \<times> saved_data option promise" where
  "proto_save = Block_save (fst proto_start) True 0 1 (snd proto_start)"

subsection \<open>A heading and its toolbox\<close>

text \<open>A heading of level 2, centered, and a toolbox with two variants of level 2.
  \<open>no_data\<close> plays \<^verbatim>\<open>_.isEmpty\<close> in the examples.\<close>

definition heading_tool :: "bool tool_instance" where
  "heading_tool =
     \<lparr>tool_save = (\<lambda>w. SaveResolves
        (JObj [(''text'', JStr ''Hi''), (''level'', JNum 2), (''align'', JStr ''center'')])),
      tool_method = (\<lambda>m. None)\<rparr>"

definition heading_block :: "bool block" where
  "heading_block = snd (Block_new (\<lambda>a. []) 0 ''h1'' ''header'' heading_tool [] [])"

definition left_heading :: toolbox_entry where
  "left_heading =
     \<lparr>entry_title = ''Left heading'',
      entry_data = Some [(''level'', JNum 2), (''align'', JStr ''left'')]\<rparr>"

definition centered_heading :: toolbox_entry where
  "centered_heading =
     \<lparr>entry_title = ''Centered heading'',
      entry_data = Some [(''level'', JNum 2), (''align'', JStr ''center'')]\<rparr>"

definition no_data :: "jvalue \<Rightarrow> bool" where
  "no_data v = (\<not> truthy v \<or> v = JObj [])"

section \<open>Properties\<close>

subsection \<open>From a mutation to the change event\<close>

lemma example_block_eq:
  "example_block =
     \<lparr>block_id = ''b1'', block_name = ''paragraph'', toolInstance = example_tool,
      tunesInstances = [], defaultTunesInstances = [], unavailableTunesData = 0,
      cachedInputs = [], inputIndex = 0, observer_connected = False, listeners = [],
      debounce_pending = None\<rparr>"
  by (simp add: example_block_def Block_new_def composeTunes_def)

lemma shouldFireUpdate_iff: "shouldFireUpdate arg = (\<not> some_node_mutation_free arg)"
  by (cases arg) (auto simp: shouldFireUpdate_def some_node_mutation_free_def list_ex_iff is_mutation_free_def)

text \<open>
  Claim C1, as the code has it. The handler behind \<^verbatim>\<open>didMutated\<close> discards what it is given
  (the Block stays as it is: no cache drop, no \<^verbatim>\<open>updated\<close> hook, no \<^verbatim>\<open>didMutated\<close> event) if and
  only if it is given a batch of mutation records, not an input event, in which at least
  one added or removed node is an element with \<^verbatim>\<open>dataset.mutationFree === 'true'\<close>. One marked
  node is enough to suppress the notification of the whole batch. Otherwise the handler
  drops the cache, updates the current input, calls the \<^verbatim>\<open>updated\<close> hook and emits
  \<^verbatim>\<open>didMutated\<close>.
\<close>

theorem didMutated_discards_iff_some_node_mutation_free:
  "(some_node_mutation_free arg \<longrightarrow> didMutated_handler pg w b arg = (b, []))
   \<and> (\<not> some_node_mutation_free arg \<longrightarrow>
        didMutated_handler pg w b arg =
          (updateCurrentInput pg (b\<lparr>cachedInputs := []\<rparr>),
           call w (updateCurrentInput pg (b\<lparr>cachedInputs := []\<rparr>)) UPDATED @ [Emitted ''didMutated'']))
   \<and> (didMutated_handler pg w b arg = (b, []) \<longleftrightarrow> some_node_mutation_free arg)"
  by (auto simp: didMutated_handler_def shouldFireUpdate_iff Let_def)

text \<open>
  Claim C1, as stated, fails: a batch that adds one marked and one unmarked element is
  discarded although not every node of the batch carries the marker.
\<close>

theorem didMutated_discards_partly_marked_batch:
  "\<not> (snd (didMutated_handler example_page True example_block
             (Mutations [\<lparr>addedNodes = [marked_node, plain_node], removedNodes = []\<rparr>])) = []
        \<longleftrightarrow> every_node_marked [\<lparr>addedNodes = [marked_node, plain_node], removedNodes = []\<rparr>])"
  by (simp add: didMutated_handler_def shouldFireUpdate_def is_mutation_free_def
      every_node_marked_def marked_node_def plain_node_def)

text \<open>
  Claim C1, witness: a batch with a marked and an unmarked element is discarded; a batch with
  an unmarked element only calls the hook, emits the event and moves the current input.
\<close>

theorem didMutated_discards_iff_some_node_mutation_free_witness:
  "some_node_mutation_free (Mutations [\<lparr>addedNodes = [marked_node, plain_node], removedNodes = []\<rparr>])
   \<and> snd (didMutated_handler example_page True example_block
             (Mutations [\<lparr>addedNodes = [marked_node, plain_node], removedNodes = []\<rparr>])) = []
   \<and> \<not> some_node_mutation_free (Mutations [\<lparr>addedNodes = [plain_node], removedNodes = []\<rparr>])
   \<and> snd (didMutated_handler example_page True example_block
             (Mutations [\<lparr>addedNodes = [plain_node], removedNodes = []\<rparr>])) =
       [ToolMethodCalled ''updated'', Emitted ''didMutated'']
   \<and> inputIndex (fst (didMutated_handler example_page True example_block
             (Mutations [\<lparr>addedNodes = [plain_node], removedNodes = []\<rparr>]))) = 1"
  using didMutated_discards_iff_some_node_mutation_free [of "Mutations [\<lparr>addedNodes = [marked_node, plain_node], removedNodes = []\<rparr>]"
               example_page True example_block]
    didMutated_discards_iff_some_node_mutation_free [of "Mutations [\<lparr>addedNodes = [plain_node], removedNodes = []\<rparr>]"
               example_page True example_block]
  by (simp add: some_node_mutation_free_def marked_node_def plain_node_def
      example_block_eq example_page_def example_tool_def updateCurrentInput_def
      set_currentInput_def inputs_def call_def UPDATED_def APPEND_CALLBACK_def Let_def)

subsection \<open>The index of the current input\<close>

lemma inputs_recompute:
  "cachedInputs b = [] \<Longrightarrow>
   fst (inputs pg b) = findAllInputs pg \<and>
   cachedInputs (snd (inputs pg b)) = findAllInputs pg \<and>
   inputIndex (snd (inputs pg b)) = min (inputIndex b) (int (length (findAllInputs pg)) - 1)"
  by (auto simp: inputs_def Let_def)

lemma inputs_again:
  "inputs pg (snd (inputs pg b)) = (fst (inputs pg b), snd (inputs pg b))"
  by (auto simp: inputs_def Let_def)

lemma currentInput_after_recompute:
  assumes "cachedInputs b = []" "0 \<le> inputIndex b" "findAllInputs pg \<noteq> []"
  shows "fst (currentInput pg (snd (inputs pg b))) =
           Some (findAllInputs pg ! nat (inputIndex (snd (inputs pg b))))
         \<and> nat (inputIndex (snd (inputs pg b))) < length (findAllInputs pg)"
proof -
  have r: "fst (inputs pg b) = findAllInputs pg"
    "inputIndex (snd (inputs pg b)) = min (inputIndex b) (int (length (findAllInputs pg)) - 1)"
    using inputs_recompute [OF assms(1), of pg] by simp_all
  have len: "0 < length (findAllInputs pg)" using assms(3) by simp
  have lo: "0 \<le> inputIndex (snd (inputs pg b))" using r(2) assms(2) len by simp
  have hi: "inputIndex (snd (inputs pg b)) < int (length (findAllInputs pg))" using r(2) by simp
  show ?thesis
    using lo hi r(1) by (simp add: currentInput_def inputs_again array_at_def)
qed

text \<open>
  Claim C2, as the code has it. Whenever the getter \<^verbatim>\<open>inputs\<close> recomputes the cache, the stored
  \<^verbatim>\<open>inputIndex\<close> does not exceed the last valid index \<^verbatim>\<open>inputs.length - 1\<close>. When at least one
  input is found and the index was not negative before, the index lies in
  \<^verbatim>\<open>[0, inputs.length - 1]\<close> and \<^verbatim>\<open>currentInput\<close> is an element of \<^verbatim>\<open>inputs\<close>.
\<close>

theorem inputs_recompute_bounds_inputIndex:
  "cachedInputs b = [] \<Longrightarrow>
   inputIndex (snd (inputs pg b)) \<le> int (length (fst (inputs pg b))) - 1
   \<and> (0 \<le> inputIndex b \<and> fst (inputs pg b) \<noteq> [] \<longrightarrow>
        0 \<le> inputIndex (snd (inputs pg b))
        \<and> (\<exists>e \<in> set (fst (inputs pg b)). fst (currentInput pg (snd (inputs pg b))) = Some e))"
proof (intro conjI impI)
  assume c: "cachedInputs b = []"
  note r = inputs_recompute [OF c, of pg]
  show "inputIndex (snd (inputs pg b)) \<le> int (length (fst (inputs pg b))) - 1"
    using r by simp
  assume h: "0 \<le> inputIndex b \<and> fst (inputs pg b) \<noteq> []"
  then have ne: "findAllInputs pg \<noteq> []" using r by simp
  show "0 \<le> inputIndex (snd (inputs pg b))" using r h ne by simp
  from currentInput_after_recompute [OF c _ ne] h
  have "fst (currentInput pg (snd (inputs pg b))) =
          Some (findAllInputs pg ! nat (inputIndex (snd (inputs pg b))))"
    and "nat (inputIndex (snd (inputs pg b))) < length (findAllInputs pg)" by simp_all
  then show "\<exists>e \<in> set (fst (inputs pg b)). fst (currentInput pg (snd (inputs pg b))) = Some e"
    using r nth_mem by metis
qed

text \<open>
  Claim C2, as stated, fails: on a fresh Block whose holder has no input, recomputing the
  cache sets \<^verbatim>\<open>inputIndex\<close> to \<open>-1\<close>, and \<^verbatim>\<open>currentInput\<close> is \<^verbatim>\<open>undefined\<close>. When the holder
  then gets two inputs, the next recomputation finds them and leaves the index at \<open>-1\<close>:
  it is outside \<^verbatim>\<open>[0, 1]\<close> and \<^verbatim>\<open>currentInput\<close> is still \<^verbatim>\<open>undefined\<close>.
\<close>

theorem inputIndex_negative_without_inputs:
  "cachedInputs example_block = []
   \<and> inputIndex (snd (inputs bare_page example_block)) = -1
   \<and> fst (currentInput bare_page (snd (inputs bare_page example_block))) = None
   \<and> cachedInputs (snd (inputs bare_page example_block)) = []
   \<and> fst (inputs example_page (snd (inputs bare_page example_block))) = [1, 2]
   \<and> inputIndex (snd (inputs example_page (snd (inputs bare_page example_block)))) = -1
   \<and> fst (currentInput example_page
             (snd (inputs example_page (snd (inputs bare_page example_block))))) = None"
  by (simp add: example_block_eq bare_page_def example_page_def inputs_def currentInput_def
      array_at_def Let_def)

text \<open>
  Claim C2, witness: with two inputs on the page and a stored index of 5, recomputing the
  cache lowers the index to 1, and the current input is the second input.
\<close>

theorem inputs_recompute_bounds_inputIndex_witness:
  "cachedInputs (example_block\<lparr>inputIndex := 5\<rparr>) = []
   \<and> 0 \<le> inputIndex (example_block\<lparr>inputIndex := 5\<rparr>)
   \<and> fst (inputs example_page (example_block\<lparr>inputIndex := 5\<rparr>)) = [1, 2]
   \<and> inputIndex (snd (inputs example_page (example_block\<lparr>inputIndex := 5\<rparr>))) = 1
   \<and> fst (currentInput example_page (snd (inputs example_page (example_block\<lparr>inputIndex := 5\<rparr>)))) = Some 2"
  using inputs_recompute_bounds_inputIndex [of "example_block\<lparr>inputIndex := 5\<rparr>" example_page]
  by (simp add: example_block_eq example_page_def inputs_def currentInput_def array_at_def Let_def)

subsection \<open>Selecting and unselecting\<close>

lemma add_each_set:
  "set (add_each pg xs ls) =
     set ls \<union> {(e, k). e \<in> set xs \<and> (k = FocusListener \<or> isNativeInput pg e)}"
proof (induction xs arbitrary: ls)
  case Nil
  then show ?case by simp
next
  case (Cons x xs)
  show ?case
    by (auto simp: Cons.IH addEventListener_def Let_def) (metis listener_kind.exhaust)+
qed

lemma remove_each_set:
  "set (remove_each pg xs ls) =
     set ls - {(e, k). e \<in> set xs \<and> (k = FocusListener \<or> isNativeInput pg e)}"
proof (induction xs arbitrary: ls)
  case Nil
  then show ?case by simp
next
  case (Cons x xs)
  show ?case
    by (auto simp: Cons.IH removeEventListener_def Let_def) (metis listener_kind.exhaust)+
qed

lemma run_idle:
  "\<not> observer_connected b \<Longrightarrow> listeners b = [] \<Longrightarrow> debounce_pending b = None \<Longrightarrow>
   run pg w b evs = (b, [])"
  by (induction evs) (auto simp: deliver_def debounce_timer_fires_def split: page_event.splits)

lemma inputs_observer:
  "inputs pg (b\<lparr>observer_connected := v\<rparr>) =
     (fst (inputs pg b), (snd (inputs pg b))\<lparr>observer_connected := v\<rparr>)"
  by (simp add: inputs_def Let_def)

lemma inputs_listeners:
  "inputs pg (b\<lparr>listeners := v\<rparr>) =
     (fst (inputs pg b), (snd (inputs pg b))\<lparr>listeners := v\<rparr>)"
  by (simp add: inputs_def Let_def)

lemma inputs_keeps:
  "listeners (snd (inputs pg b)) = listeners b"
  "observer_connected (snd (inputs pg b)) = observer_connected b"
  "debounce_pending (snd (inputs pg b)) = debounce_pending b"
  by (simp_all add: inputs_def Let_def)

lemma willSelect_eq:
  "willSelect pg b =
     (snd (inputs pg b))\<lparr>observer_connected := True,
        listeners := add_each pg (fst (inputs pg b)) (listeners b)\<rparr>"
  by (simp add: willSelect_def addInputEvents_def inputs_observer inputs_keeps)

lemma willUnselect_eq:
  "willUnselect pg b =
     (snd (inputs pg b))\<lparr>observer_connected := False,
        listeners := remove_each pg (fst (inputs pg b)) (listeners b)\<rparr>"
  by (simp add: willUnselect_def removeInputEvents_def inputs_observer inputs_keeps)

lemma inputs_willSelect:
  "inputs pg (willSelect pg b) = (fst (inputs pg b), willSelect pg b)"
  by (simp add: willSelect_eq inputs_observer inputs_listeners inputs_again)

lemma select_unselect:
  "willUnselect pg (willSelect pg b) =
     (snd (inputs pg b))\<lparr>observer_connected := False,
        listeners := remove_each pg (fst (inputs pg b))
                       (add_each pg (fst (inputs pg b)) (listeners b))\<rparr>"
  by (simp add: willUnselect_eq inputs_willSelect) (simp add: willSelect_eq)

lemma select_unselect_listeners:
  "set (listeners (willUnselect pg (willSelect pg b))) =
     set (listeners b)
       - {(e, k). e \<in> set (fst (inputs pg b)) \<and> (k = FocusListener \<or> isNativeInput pg e)}"
  by (auto simp: select_unselect remove_each_set add_each_set)

text \<open>
  Claim C8. After \<^verbatim>\<open>willSelect()\<close> and then at once \<^verbatim>\<open>willUnselect()\<close> (the page \<open>pg\<close> is the same
  for both), the mutation observer is disconnected, so a later batch of DOM mutations (on
  any later page \<open>pg'\<close>) reaches no handler and arms no timer; on every input of the Block
  the focus listener is removed, and on every native input the \<^verbatim>\<open>input\<close> listener, so a later
  \<^verbatim>\<open>input\<close> event there reaches no handler either. When the Block had no listener and no
  pending timer before, every later run of page events leaves the Block as it is and lets
  out nothing: no \<^verbatim>\<open>didMutated\<close> is emitted.
\<close>

theorem willSelect_willUnselect_leaves_no_observation:
  "\<not> observer_connected (willUnselect pg (willSelect pg b))
   \<and> deliver pg' w (willUnselect pg (willSelect pg b)) (DomMutation records) =
       (willUnselect pg (willSelect pg b), [])
   \<and> (\<forall>e \<in> set (fst (inputs pg b)).
         (e, FocusListener) \<notin> set (listeners (willUnselect pg (willSelect pg b)))
         \<and> (isNativeInput pg e \<longrightarrow>
              (e, InputListener) \<notin> set (listeners (willUnselect pg (willSelect pg b)))
              \<and> deliver pg' w (willUnselect pg (willSelect pg b)) (NativeInput e) =
                  (willUnselect pg (willSelect pg b), [])))
   \<and> (listeners b = [] \<and> debounce_pending b = None \<longrightarrow>
        run pg' w (willUnselect pg (willSelect pg b)) evs = (willUnselect pg (willSelect pg b), []))"
proof -
  let ?b2 = "willUnselect pg (willSelect pg b)"
  have obs: "\<not> observer_connected ?b2" by (simp add: select_unselect)
  have ls: "set (listeners ?b2) = set (listeners b)
       - {(e, k). e \<in> set (fst (inputs pg b)) \<and> (k = FocusListener \<or> isNativeInput pg e)}"
    by (rule select_unselect_listeners)
  have pend: "debounce_pending ?b2 = debounce_pending b"
    by (simp add: select_unselect inputs_keeps)
  have mut: "deliver pg' w ?b2 (DomMutation records) = (?b2, [])"
    using obs by (simp add: deliver_def)
  have inp: "\<forall>e \<in> set (fst (inputs pg b)).
         (e, FocusListener) \<notin> set (listeners ?b2)
         \<and> (isNativeInput pg e \<longrightarrow>
              (e, InputListener) \<notin> set (listeners ?b2)
              \<and> deliver pg' w ?b2 (NativeInput e) = (?b2, []))"
    using ls by (auto simp: deliver_def)
  have idle: "listeners b = [] \<and> debounce_pending b = None \<longrightarrow> run pg' w ?b2 evs = (?b2, [])"
  proof
    assume h: "listeners b = [] \<and> debounce_pending b = None"
    then have "listeners ?b2 = []" using ls by simp
    then show "run pg' w ?b2 evs = (?b2, [])"
      using obs pend h by (intro run_idle) simp_all
  qed
  show ?thesis using obs mut inp idle by blast
qed

text \<open>
  Claim C8, witness: on the example page, selecting registers three listeners and connects
  the observer; unselecting removes them all, and a mutation, an input event and a timer
  tick afterwards emit nothing.
\<close>

theorem willSelect_willUnselect_leaves_no_observation_witness:
  "listeners example_block = [] \<and> debounce_pending example_block = None
   \<and> fst (inputs example_page example_block) = [1, 2]
   \<and> listeners (willSelect example_page example_block) =
       [(1, FocusListener), (2, FocusListener), (2, InputListener)]
   \<and> observer_connected (willSelect example_page example_block)
   \<and> listeners (willUnselect example_page (willSelect example_page example_block)) = []
   \<and> \<not> observer_connected (willUnselect example_page (willSelect example_page example_block))
   \<and> snd (run example_page True (willUnselect example_page (willSelect example_page example_block))
            [DomMutation [\<lparr>addedNodes = [plain_node], removedNodes = []\<rparr>], NativeInput 2, TimerFires]) = []"
proof -
  have pre: "listeners example_block = [] \<and> debounce_pending example_block = None"
    by (simp add: example_block_eq)
  have quiet:
    "snd (run example_page True (willUnselect example_page (willSelect example_page example_block))
            [DomMutation [\<lparr>addedNodes = [plain_node], removedNodes = []\<rparr>], NativeInput 2, TimerFires]) = []"
    using pre willSelect_willUnselect_leaves_no_observation [of example_page example_block example_page True
      "[\<lparr>addedNodes = [plain_node], removedNodes = []\<rparr>]"
      "[DomMutation [\<lparr>addedNodes = [plain_node], removedNodes = []\<rparr>], NativeInput 2, TimerFires]"]
    by (simp del: run.simps)
  have selected:
    "fst (inputs example_page example_block) = [1, 2]
     \<and> listeners (willSelect example_page example_block) =
         [(1, FocusListener), (2, FocusListener), (2, InputListener)]
     \<and> observer_connected (willSelect example_page example_block)
     \<and> listeners (willUnselect example_page (willSelect example_page example_block)) = []
     \<and> \<not> observer_connected (willUnselect example_page (willSelect example_page example_block))"
    by (simp add: example_block_eq example_page_def inputs_def willSelect_def willUnselect_def
        addInputEvents_def removeInputEvents_def addEventListener_def removeEventListener_def Let_def)
  show ?thesis using pre quiet selected by simp
qed

subsection \<open>Objects, tunes and the store\<close>

lemma map_of_obj_set: "map_of (obj_set obj k v) = (map_of obj)(k \<mapsto> v)"
  by (induction obj) auto

lemma keys_obj_set: "fst ` set (obj_set obj k v) = insert k (fst ` set obj)"
proof (induction obj)
  case Nil
  then show ?case by simp
next
  case (Cons p obj)
  obtain k' v' where p: "p = (k', v')" by (cases p)
  show ?case using Cons.IH p by (cases "k' = k") auto
qed

lemma distinct_obj_set:
  "distinct (map fst obj) \<Longrightarrow> distinct (map fst (obj_set obj k v))"
proof (induction obj)
  case Nil
  then show ?case by simp
next
  case (Cons p obj)
  obtain k' v' where p: "p = (k', v')" by (cases p)
  show ?case
  proof (cases "k' = k")
    case True
    then show ?thesis using Cons.prems p by simp
  next
    case False
    have "k' \<notin> fst ` set (obj_set obj k v)"
      using Cons.prems p False by (simp add: keys_obj_set)
    then show ?thesis using Cons p False by simp
  qed
qed

lemma create_tunes_names:
  "fst ` set (fst (create_tunes td tunes (u, i))) \<subseteq> fst ` set u \<union> tune_name ` set tunes
   \<and> fst ` set (snd (create_tunes td tunes (u, i))) \<subseteq> fst ` set i \<union> tune_name ` set tunes"
proof (induction tunes arbitrary: u i)
  case Nil
  then show ?case by simp
next
  case (Cons t tunes)
  show ?case
  proof (cases "isInternal t")
    case True
    then show ?thesis
      using Cons.IH [of u "obj_set i (tune_name t) (tune_create t (obj_read td (tune_name t)))"]
      by (auto simp: Let_def keys_obj_set)
  next
    case False
    then show ?thesis
      using Cons.IH [of "obj_set u (tune_name t) (tune_create t (obj_read td (tune_name t)))" i]
      by (auto simp: Let_def keys_obj_set)
  qed
qed

lemma keep_unavailable_lookup:
  "distinct (map fst td) \<Longrightarrow> n \<noteq> ''__proto__'' \<Longrightarrow>
   map_of (keep_unavailable user td bag) n =
     (if obj_has user n then map_of bag n
      else (case map_of td n of None \<Rightarrow> map_of bag n | Some d \<Rightarrow> Some d))"
proof (induction td arbitrary: bag)
  case Nil
  then show ?case by simp
next
  case (Cons p td)
  obtain k v where p: "p = (k, v)" by (cases p)
  have d: "distinct (map fst td)" and k: "k \<notin> fst ` set td" using Cons.prems p by auto
  have none: "map_of td k = None" using k by (simp add: map_of_eq_None_iff)
  show ?case
    using Cons.IH [OF d Cons.prems(2)] p none Cons.prems(2)
    by (auto simp: map_of_obj_set obj_assign_def split: option.splits)
qed

lemma keep_unavailable_distinct:
  "distinct (map fst bag) \<Longrightarrow> distinct (map fst (keep_unavailable user td bag))"
  by (induction td arbitrary: bag) (auto simp: distinct_obj_set obj_assign_def)

lemma keep_unavailable_proto:
  "\<not> obj_has bag ''__proto__'' \<Longrightarrow> \<not> obj_has (keep_unavailable user td bag) ''__proto__''"
proof (induction td arbitrary: bag)
  case Nil
  then show ?case by simp
next
  case (Cons p td)
  obtain k v where p: "p = (k, v)" by (cases p)
  have "\<not> obj_has (obj_assign bag k v) ''__proto__''"
    using Cons.prems keys_obj_set [of bag k v] by (auto simp: obj_assign_def obj_has_def)
  then show ?case using Cons p by simp
qed

lemma save_tunes_step_fst:
  "fst (save_tunes w ((k, t) # insts) bag) =
     (case tune_save t of
        None \<Rightarrow> fst (save_tunes w insts bag)
      | Some f \<Rightarrow>
          (case f w of
             Returns v \<Rightarrow> fst (save_tunes w insts (obj_set bag k v))
           | Throws e \<Rightarrow> fst (save_tunes w insts bag)))"
  by (simp split: option.splits outcome.splits prod.splits)

lemma save_tunes_step_snd:
  "snd (save_tunes w ((k, t) # insts) bag) =
     (case tune_save t of
        None \<Rightarrow> snd (save_tunes w insts bag)
      | Some f \<Rightarrow>
          (case f w of
             Returns v \<Rightarrow> snd (save_tunes w insts (obj_set bag k v))
           | Throws e \<Rightarrow>
               Logged ''warn'' (''Tune '' @ tune_class t @ '' save method throws an Error %o'') e
                 # snd (save_tunes w insts bag)))"
  by (simp split: option.splits outcome.splits prod.splits)

lemma save_tunes_other:
  "n \<notin> fst ` set insts \<Longrightarrow> map_of (fst (save_tunes w insts bag)) n = map_of bag n"
proof (induction insts arbitrary: bag)
  case Nil
  then show ?case by simp
next
  case (Cons p insts)
  obtain k t where p: "p = (k, t)" by (cases p)
  have n: "n \<noteq> k" "n \<notin> fst ` set insts" using Cons.prems p by auto
  show ?case
    using Cons.IH [OF n(2)] p n(1)
    by (simp add: save_tunes_step_fst map_of_obj_set del: save_tunes.simps
        split: option.splits outcome.splits)
qed

lemma save_tunes_distinct:
  "distinct (map fst bag) \<Longrightarrow> distinct (map fst (fst (save_tunes w insts bag)))"
proof (induction insts arbitrary: bag)
  case Nil
  then show ?case by simp
next
  case (Cons p insts)
  obtain k t where p: "p = (k, t)" by (cases p)
  show ?case
    using Cons p
    by (simp add: save_tunes_step_fst distinct_obj_set del: save_tunes.simps
        split: option.splits outcome.splits)
qed

lemma save_tunes_lookup:
  "distinct (map fst insts) \<Longrightarrow>
   map_of (fst (save_tunes w insts bag)) n =
     (case map_of insts n of
        None \<Rightarrow> map_of bag n
      | Some t \<Rightarrow>
          (case tune_save t of
             None \<Rightarrow> map_of bag n
           | Some f \<Rightarrow> (case f w of Returns v \<Rightarrow> Some v | Throws e \<Rightarrow> map_of bag n)))"
proof (induction insts arbitrary: bag)
  case Nil
  then show ?case by simp
next
  case (Cons p insts)
  obtain k t where p: "p = (k, t)" by (cases p)
  have d: "distinct (map fst insts)" and k: "k \<notin> fst ` set insts" using Cons.prems p by auto
  show ?case
  proof (cases "n = k")
    case True
    then show ?thesis
      using p k save_tunes_other [of k insts w]
      by (simp add: save_tunes_step_fst map_of_obj_set del: save_tunes.simps
          split: option.splits outcome.splits)
  next
    case False
    then show ?thesis
      using p Cons.IH [OF d]
      by (simp add: save_tunes_step_fst map_of_obj_set del: save_tunes.simps
          split: option.splits outcome.splits)
  qed
qed

lemma save_tunes_logs:
  "(name, tune) \<in> set insts \<Longrightarrow> tune_save tune = Some f \<Longrightarrow> f w = Throws e \<Longrightarrow>
   Logged ''warn'' (''Tune '' @ tune_class tune @ '' save method throws an Error %o'') e
     \<in> set (snd (save_tunes w insts bag))"
proof (induction insts arbitrary: bag)
  case Nil
  then show ?case by simp
next
  case (Cons p insts)
  obtain k t where p: "p = (k, t)" by (cases p)
  show ?case
  proof (cases "(name, tune) = (k, t)")
    case True
    then show ?thesis using Cons.prems p by (simp add: save_tunes_step_snd del: save_tunes.simps)
  next
    case False
    then have "(name, tune) \<in> set insts" using Cons.prems p by auto
    from Cons.IH [OF this Cons.prems(2,3)] show ?thesis
      using p by (simp add: save_tunes_step_snd del: save_tunes.simps
          split: option.splits outcome.splits)
  qed
qed

lemma Block_save_ok:
  "await_save (tool_save (toolInstance b) w) = Inr v \<Longrightarrow>
   Block_save st w t0 t1 b =
     (st(unavailableTunesData b :=
           fst (save_tunes w (tunesInstances b @ defaultTunesInstances b) (st (unavailableTunesData b)))),
      snd (save_tunes w (tunesInstances b @ defaultTunesInstances b) (st (unavailableTunesData b))),
      Resolved (Some \<lparr>sd_id = block_id b, sd_tool = block_name b, sd_data = v,
                      sd_tunes = unavailableTunesData b, sd_time = t1 - t0\<rparr>))"
  by (simp add: Block_save_def promise_then_def Let_def split: prod.splits)

lemma Block_save_failed:
  "await_save (tool_save (toolInstance b) w) = Inl e \<Longrightarrow>
   Block_save st w t0 t1 b = (st, [], Rejected e)"
  by (simp add: Block_save_def)

lemma Block_save_lookup:
  assumes "distinct (map fst (tunesInstances b @ defaultTunesInstances b))"
    and "await_save (tool_save (toolInstance b) w) = Inr v"
  shows "map_of (fst (Block_save st w t0 t1 b) (unavailableTunesData b)) n =
     (case map_of (tunesInstances b @ defaultTunesInstances b) n of
        None \<Rightarrow> map_of (st (unavailableTunesData b)) n
      | Some t \<Rightarrow>
          (case tune_save t of
             None \<Rightarrow> map_of (st (unavailableTunesData b)) n
           | Some f \<Rightarrow> (case f w of Returns v \<Rightarrow> Some v
                         | Throws e \<Rightarrow> map_of (st (unavailableTunesData b)) n)))"
  using save_tunes_lookup [OF assms(1)]
  by (simp add: Block_save_ok [OF assms(2)] del: map_of_append)

lemma saved_tunes_ok:
  "await_save (tool_save (toolInstance b) w) = Inr v \<Longrightarrow>
   saved_tunes (Block_save st w t0 t1 b) = fst (Block_save st w t0 t1 b) (unavailableTunesData b)"
  by (simp add: saved_tunes_def Block_save_ok)

lemma Block_new_eq:
  "Block_new st a ident name tool tunes tunesData =
     (st(a := keep_unavailable (fst (create_tunes tunesData tunes ([], []))) tunesData []),
      \<lparr>block_id = ident, block_name = name, toolInstance = tool,
        tunesInstances = fst (create_tunes tunesData tunes ([], [])),
        defaultTunesInstances = snd (create_tunes tunesData tunes ([], [])),
        unavailableTunesData = a,
        cachedInputs = [], inputIndex = 0, observer_connected = False, listeners = [],
        debounce_pending = None\<rparr>)"
  by (simp add: Block_new_def composeTunes_def Let_def split: prod.splits)

lemma new_then_save:
  assumes "distinct (map fst tunesData)" and "map_of tunesData name = Some d"
    and "name \<notin> tune_name ` set tunes" and "name \<noteq> ''__proto__''"
    and "await_save (tool_save tool w) = Inr v"
    and "start = Block_new st a ident nm tool tunes tunesData"
    and "saved = Block_save (fst start) w t0 t1 (snd start)"
  shows "snd (snd saved) =
           Resolved (Some \<lparr>sd_id = ident, sd_tool = nm, sd_data = v, sd_tunes = a, sd_time = t1 - t0\<rparr>)"
    and "map_of (saved_tunes saved) name = Some d"
    and "distinct (map fst (saved_tunes saved))"
proof -
  let ?user = "fst (create_tunes tunesData tunes ([], []))"
  let ?internal = "snd (create_tunes tunesData tunes ([], []))"
  let ?bag = "keep_unavailable ?user tunesData []"
  have fields: "toolInstance (snd start) = tool" "unavailableTunesData (snd start) = a"
    "tunesInstances (snd start) = ?user" "defaultTunesInstances (snd start) = ?internal"
    "block_id (snd start) = ident" "block_name (snd start) = nm"
    "fst start a = ?bag"
    by (simp_all add: assms(6) Block_new_eq)
  have aw: "await_save (tool_save (toolInstance (snd start)) w) = Inr v"
    using assms(5) fields(1) by simp
  note ok = Block_save_ok [OF aw, of "fst start" t0 t1]
  have names: "name \<notin> fst ` set ?user" "name \<notin> fst ` set ?internal"
    using create_tunes_names [of tunesData tunes "[]" "[]"] assms(3) by auto
  have bag: "map_of ?bag name = Some d"
    using keep_unavailable_lookup [OF assms(1,4), of ?user "[]"] names(1) assms(2)
    by (simp add: obj_has_def)
  have st: "saved_tunes saved = fst (save_tunes w (?user @ ?internal) ?bag)"
    by (simp add: assms(7) saved_tunes_def ok fields)
  show "snd (snd saved) =
           Resolved (Some \<lparr>sd_id = ident, sd_tool = nm, sd_data = v, sd_tunes = a, sd_time = t1 - t0\<rparr>)"
    by (simp add: assms(7) ok fields)
  show "map_of (saved_tunes saved) name = Some d"
  proof -
    have "name \<notin> fst ` set (?user @ ?internal)" using names by auto
    from save_tunes_other [OF this, of w ?bag] bag show ?thesis by (simp only: st)
  qed
  show "distinct (map fst (saved_tunes saved))"
    using save_tunes_distinct [of ?bag w "?user @ ?internal"]
      keep_unavailable_distinct [of "[]" ?user tunesData]
    by (simp add: st)
qed

lemma new_then_save_proto:
  assumes "''__proto__'' \<notin> tune_name ` set tunes"
    and "await_save (tool_save tool w) = Inr v"
    and "start = Block_new st a ident nm tool tunes tunesData"
    and "saved = Block_save (fst start) w t0 t1 (snd start)"
  shows "map_of (saved_tunes saved) ''__proto__'' = None"
proof -
  let ?user = "fst (create_tunes tunesData tunes ([], []))"
  let ?internal = "snd (create_tunes tunesData tunes ([], []))"
  let ?bag = "keep_unavailable ?user tunesData []"
  have fields: "toolInstance (snd start) = tool" "unavailableTunesData (snd start) = a"
    "tunesInstances (snd start) = ?user" "defaultTunesInstances (snd start) = ?internal"
    "fst start a = ?bag"
    by (simp_all add: assms(3) Block_new_eq)
  have aw: "await_save (tool_save (toolInstance (snd start)) w) = Inr v"
    using assms(2) fields(1) by simp
  note ok = Block_save_ok [OF aw, of "fst start" t0 t1]
  have st: "saved_tunes saved = fst (save_tunes w (?user @ ?internal) ?bag)"
    by (simp add: assms(4) saved_tunes_def ok fields)
  have "\<not> obj_has ?bag ''__proto__''"
    using keep_unavailable_proto [of "[]" ?user tunesData] by (simp add: obj_has_def)
  then have bag: "map_of ?bag ''__proto__'' = None"
    by (simp add: obj_has_def map_of_eq_None_iff)
  have "''__proto__'' \<notin> fst ` set (?user @ ?internal)"
    using create_tunes_names [of tunesData tunes "[]" "[]"] assms(1) by auto
  from save_tunes_other [OF this, of w ?bag] bag show ?thesis by (simp only: st)
qed

lemma tuned_start_eq:
  "snd tuned_start =
     \<lparr>block_id = ''b2'', block_name = ''paragraph'', toolInstance = example_tool,
      tunesInstances = [(''align'', align_instance),
                        (''anchor'', tune_create anchor_tune (JStr ''intro''))],
      defaultTunesInstances = [], unavailableTunesData = 0,
      cachedInputs = [], inputIndex = 0, observer_connected = False, listeners = [],
      debounce_pending = None\<rparr>"
  "fst tuned_start 0 = [(''footnote'', JStr ''kept'')]"
  by (simp_all add: tuned_start_def Block_new_eq align_instance_def align_tune_def
      anchor_tune_def obj_read_def obj_has_def obj_assign_def Let_def)

lemma align_instance_save: "tune_save align_instance = Some align_save"
  by (simp add: align_instance_def align_tune_def align_save_def fun_eq_iff)

lemma example_tool_saves:
  "await_save (tool_save example_tool w) = Inr (JObj [(''text'', JStr ''Hello'')])"
  by (simp add: example_tool_def await_save_def)

subsection \<open>Saving: a failing tool\<close>

text \<open>
  Claim C3, what the code does. When the tool's \<^verbatim>\<open>save\<close> throws or returns a rejected promise,
  the \<^verbatim>\<open>await\<close> at the head of \<^verbatim>\<open>save()\<close> leaves the function before the promise chain with its
  \<^verbatim>\<open>catch\<close> is built: the promise of \<^verbatim>\<open>save()\<close> is rejected with the tool's error, nothing is
  logged, no tune is saved and the store is untouched. It does not resolve with
  \<^verbatim>\<open>undefined\<close>, as the claim and the \<^verbatim>\<open>catch\<close> handler of the source would have it.
\<close>

theorem save_rejects_when_tool_save_fails:
  "tool_save (toolInstance b) w = SaveThrows e \<or> tool_save (toolInstance b) w = SaveRejects e \<Longrightarrow>
   Block_save st w t0 t1 b = (st, [], Rejected e)"
  by (auto simp: Block_save_failed await_save_def)

text \<open>
  Claim C3, witness: the example Block with a tool whose \<^verbatim>\<open>save\<close> throws.
\<close>

theorem save_rejects_when_tool_save_fails_witness:
  "tool_save (toolInstance (example_block\<lparr>toolInstance := failing_tool\<rparr>)) True
     = SaveThrows ''cannot read block''
   \<and> snd (snd (Block_save (\<lambda>a. []) True 0 1 (example_block\<lparr>toolInstance := failing_tool\<rparr>)))
     = Rejected ''cannot read block''
   \<and> snd (snd (Block_save (\<lambda>a. []) True 0 1 (example_block\<lparr>toolInstance := failing_tool\<rparr>)))
     \<noteq> Resolved None"
  using save_rejects_when_tool_save_fails [of "example_block\<lparr>toolInstance := failing_tool\<rparr>" True "''cannot read block''"
      "\<lambda>a. []" 0 1]
  by (simp add: failing_tool_def)

subsection \<open>Saving: data of tunes that are not registered\<close>

text \<open>
  Claim C6, what the code does. \<^verbatim>\<open>tunesData\<close> is an object (its keys are distinct) that has
  data \<open>d\<close> under a name which is not the name of a tune of the Block, and the tool's
  \<^verbatim>\<open>save\<close> gives a value. If the name is not \<^verbatim>\<open>__proto__\<close>, then \<^verbatim>\<open>save()\<close> on the Block
  constructed from \<^verbatim>\<open>tunesData\<close> resolves with a result whose tunes bag maps the name to
  \<open>d\<close>; and when a Block is constructed again from that bag, with tunes among which the
  name is still missing, its \<^verbatim>\<open>save()\<close> resolves with a result whose tunes bag maps the name
  to \<open>d\<close> as well. Under the name \<^verbatim>\<open>__proto__\<close> the result has no entry, whatever \<^verbatim>\<open>tunesData\<close>
  holds there: \<^verbatim>\<open>composeTunes\<close> assigns the data to \<^verbatim>\<open>unavailableTunesData\<close>, an object made by
  \<^verbatim>\<open>{}\<close>, and that assignment adds no property. The data of a missing tune of that name is
  lost, against the claim and against the comment on the field, which keeps the data "so
  data is not lost".
\<close>

theorem unregistered_tune_data_kept_except_under_proto:
  assumes "distinct (map fst tunesData)" and "map_of tunesData name = Some d"
    and "name \<notin> tune_name ` set tunes" and "name \<notin> tune_name ` set tunes'"
    and "name \<noteq> ''__proto__''"
    and "await_save (tool_save tool w) = Inr v" and "await_save (tool_save tool' w') = Inr v'"
    and "start = Block_new st a ident nm tool tunes tunesData"
    and "saved = Block_save (fst start) w t0 t1 (snd start)"
    and "restart = Block_new (fst saved) a' ident' nm' tool' tunes' (saved_tunes saved)"
    and "resaved = Block_save (fst restart) w' t0' t1' (snd restart)"
  shows "(\<exists>r. snd (snd saved) = Resolved (Some r)) \<and> map_of (saved_tunes saved) name = Some d
       \<and> (\<exists>r. snd (snd resaved) = Resolved (Some r)) \<and> map_of (saved_tunes resaved) name = Some d
       \<and> (''__proto__'' \<notin> tune_name ` set tunes \<longrightarrow>
            map_of (saved_tunes saved) ''__proto__'' = None)"
proof -
  note one = new_then_save [OF assms(1,2,3,5,6,8,9)]
  note two = new_then_save [OF one(3) one(2) assms(4,5,7,10,11)]
  have three: "''__proto__'' \<notin> tune_name ` set tunes \<longrightarrow>
            map_of (saved_tunes saved) ''__proto__'' = None"
    using new_then_save_proto [OF _ assms(6,8,9)] by blast
  show ?thesis using one(1,2) two(1,2) three by simp
qed

text \<open>
  Claim C6, witness: the data of the unregistered tune \<^verbatim>\<open>footnote\<close> through the first save of
  the example Block, the reload and the save after it; and a Block loaded from the data
  that \<^verbatim>\<open>JSON.parse\<close> makes of \<^verbatim>\<open>{"__proto__": "kept", "footnote": "note"}\<close>, with no tune
  registered: its save gives the footnote back and has nothing under \<^verbatim>\<open>__proto__\<close>.
\<close>

theorem unregistered_tune_data_kept_except_under_proto_witness:
  "distinct (map fst [(''anchor'', JStr ''intro''), (''footnote'', JStr ''kept'')])
   \<and> map_of [(''anchor'', JStr ''intro''), (''footnote'', JStr ''kept'')] ''footnote'' = Some (JStr ''kept'')
   \<and> ''footnote'' \<notin> tune_name ` set [align_tune, anchor_tune]
   \<and> map_of (saved_tunes first_save) ''footnote'' = Some (JStr ''kept'')
   \<and> map_of (saved_tunes reloaded_save) ''footnote'' = Some (JStr ''kept'')
   \<and> map_of [(''__proto__'', JStr ''kept''), (''footnote'', JStr ''note'')] ''__proto__''
       = Some (JStr ''kept'')
   \<and> map_of (saved_tunes proto_save) ''footnote'' = Some (JStr ''note'')
   \<and> map_of (saved_tunes proto_save) ''__proto__'' = None"
proof -
  have d: "distinct (map fst [(''anchor'', JStr ''intro''), (''footnote'', JStr ''kept'')])"
    by simp
  have m: "map_of [(''anchor'', JStr ''intro''), (''footnote'', JStr ''kept'')] ''footnote''
             = Some (JStr ''kept'')"
    by simp
  have n: "''footnote'' \<notin> tune_name ` set [align_tune, anchor_tune]"
    "''footnote'' \<notin> tune_name ` set [anchor_tune]"
    by (simp_all add: align_tune_def anchor_tune_def)
  have f: "''footnote'' \<noteq> ''__proto__''" by simp
  note inst = unregistered_tune_data_kept_except_under_proto
    [OF d m n f example_tool_saves example_tool_saves
        tuned_start_def first_save_def reloaded_start_def reloaded_save_def]
  have d': "distinct (map fst [(''__proto__'', JStr ''kept''), (''footnote'', JStr ''note'')])"
    by simp
  have m': "map_of [(''__proto__'', JStr ''kept''), (''footnote'', JStr ''note'')] ''footnote''
             = Some (JStr ''note'')"
    by simp
  have p: "map_of [(''__proto__'', JStr ''kept''), (''footnote'', JStr ''note'')] ''__proto__''
             = Some (JStr ''kept'')"
    by simp
  have e: "''footnote'' \<notin> tune_name ` set ([] :: bool block_tune list)" by simp
  have e': "''__proto__'' \<notin> tune_name ` set ([] :: bool block_tune list)" by simp
  note lost = unregistered_tune_data_kept_except_under_proto
    [OF d' m' e e f example_tool_saves example_tool_saves proto_start_def proto_save_def refl refl]
  show ?thesis using inst lost d m n(1) p e' by simp
qed

subsection \<open>Saving: a failing tune\<close>

text \<open>
  Claim C7, as the code has it. The tunes of the Block have distinct names and the tool's
  \<^verbatim>\<open>save\<close> gives a value. If the \<^verbatim>\<open>save()\<close> of one tune throws, the error is caught and logged,
  \<^verbatim>\<open>save()\<close> still resolves with a result whose data is what the tool extracted, and nothing
  is written under that tune's name: the tunes bag holds for it what
  \<^verbatim>\<open>unavailableTunesData\<close> held before the call, so the entry is absent when none was there.
  Every tune whose \<^verbatim>\<open>save()\<close> returns has its output in the bag.
\<close>

theorem throwing_tune_writes_nothing_and_siblings_are_saved:
  assumes "distinct (map fst (tunesInstances b @ defaultTunesInstances b))"
    and "await_save (tool_save (toolInstance b) w) = Inr v"
    and "(name, tune) \<in> set (tunesInstances b @ defaultTunesInstances b)"
    and "tune_save tune = Some f" and "f w = Throws e"
  shows "snd (snd (Block_save st w t0 t1 b)) =
           Resolved (Some \<lparr>sd_id = block_id b, sd_tool = block_name b, sd_data = v,
                            sd_tunes = unavailableTunesData b, sd_time = t1 - t0\<rparr>)
         \<and> Logged ''warn'' (''Tune '' @ tune_class tune @ '' save method throws an Error %o'') e
             \<in> set (fst (snd (Block_save st w t0 t1 b)))
         \<and> map_of (fst (Block_save st w t0 t1 b) (unavailableTunesData b)) name
             = map_of (st (unavailableTunesData b)) name
         \<and> (\<forall>(n, t) \<in> set (tunesInstances b @ defaultTunesInstances b).
               \<forall>g x. tune_save t = Some g \<and> g w = Returns x \<longrightarrow>
                 map_of (fst (Block_save st w t0 t1 b) (unavailableTunesData b)) n = Some x)"
proof -
  let ?insts = "tunesInstances b @ defaultTunesInstances b"
  note ok = Block_save_ok [OF assms(2), of st t0 t1]
  have m: "map_of ?insts name = Some tune" using assms(1,3) by (simp only: map_of_is_SomeI)
  have look: "\<And>n. map_of (fst (Block_save st w t0 t1 b) (unavailableTunesData b)) n =
     (case map_of ?insts n of
        None \<Rightarrow> map_of (st (unavailableTunesData b)) n
      | Some t \<Rightarrow>
          (case tune_save t of
             None \<Rightarrow> map_of (st (unavailableTunesData b)) n
           | Some f \<Rightarrow> (case f w of Returns v \<Rightarrow> Some v
                         | Throws e \<Rightarrow> map_of (st (unavailableTunesData b)) n)))"
    using save_tunes_lookup [OF assms(1)] by (simp add: ok del: map_of_append)
  have 1: "snd (snd (Block_save st w t0 t1 b)) =
           Resolved (Some \<lparr>sd_id = block_id b, sd_tool = block_name b, sd_data = v,
                            sd_tunes = unavailableTunesData b, sd_time = t1 - t0\<rparr>)"
    by (simp add: ok)
  have 2: "Logged ''warn'' (''Tune '' @ tune_class tune @ '' save method throws an Error %o'') e
             \<in> set (fst (snd (Block_save st w t0 t1 b)))"
    using save_tunes_logs [OF assms(3,4,5)] by (simp add: ok)
  have 3: "map_of (fst (Block_save st w t0 t1 b) (unavailableTunesData b)) name
             = map_of (st (unavailableTunesData b)) name"
    by (simp add: look m assms(4,5) del: map_of_append)
  have 4: "\<forall>(n, t) \<in> set ?insts.
               \<forall>g x. tune_save t = Some g \<and> g w = Returns x \<longrightarrow>
                 map_of (fst (Block_save st w t0 t1 b) (unavailableTunesData b)) n = Some x"
  proof (clarify)
    fix n t g x
    assume "(n, t) \<in> set ?insts" "tune_save t = Some g" "g w = Returns x"
    moreover from this(1) assms(1) have "map_of ?insts n = Some t" by (simp only: map_of_is_SomeI)
    ultimately show "map_of (fst (Block_save st w t0 t1 b) (unavailableTunesData b)) n = Some x"
      by (simp add: look del: map_of_append)
  qed
  show ?thesis using 1 2 3 4 by blast
qed

text \<open>
  Claim C7, as stated, fails: the tune \<^verbatim>\<open>align\<close> saved its value in a first \<^verbatim>\<open>save()\<close>; in the
  second \<^verbatim>\<open>save()\<close> it throws, and the tunes bag of the second result still has its entry.
\<close>

theorem throwing_tune_keeps_earlier_entry:
  "(case map_of (tunesInstances (snd tuned_start)) ''align'' of
      Some tune \<Rightarrow> (case tune_save tune of Some save \<Rightarrow> Some (save False) | None \<Rightarrow> None)
    | None \<Rightarrow> None) = Some (Throws ''broken'')
   \<and> snd (snd second_save) =
       Resolved (Some \<lparr>sd_id = ''b2'', sd_tool = ''paragraph'',
                        sd_data = JObj [(''text'', JStr ''Hello'')], sd_tunes = 0, sd_time = 1\<rparr>)
   \<and> map_of (saved_tunes second_save) ''align'' = Some (JStr ''left'')"
  by code_simp

text \<open>
  Claim C7, witness: on the freshly loaded example Block the tune \<^verbatim>\<open>align\<close> throws; the result
  has the tool's data, the error is logged, the bag has no entry for \<^verbatim>\<open>align\<close> and has the
  output of the sibling \<^verbatim>\<open>anchor\<close>.
\<close>

theorem throwing_tune_writes_nothing_and_siblings_are_saved_witness:
  "align_save False = Throws ''broken''
   \<and> map_of (fst tuned_start 0) ''align'' = None
   \<and> snd (snd (Block_save (fst tuned_start) False 0 1 (snd tuned_start))) =
       Resolved (Some \<lparr>sd_id = ''b2'', sd_tool = ''paragraph'',
                        sd_data = JObj [(''text'', JStr ''Hello'')], sd_tunes = 0, sd_time = 1\<rparr>)
   \<and> Logged ''warn'' ''Tune AlignTune save method throws an Error %o'' ''broken''
       \<in> set (fst (snd (Block_save (fst tuned_start) False 0 1 (snd tuned_start))))
   \<and> map_of (fst (Block_save (fst tuned_start) False 0 1 (snd tuned_start)) 0) ''align'' = None
   \<and> map_of (fst (Block_save (fst tuned_start) False 0 1 (snd tuned_start)) 0) ''anchor''
       = Some (JStr ''intro'')"
proof -
  have d: "distinct (map fst (tunesInstances (snd tuned_start) @ defaultTunesInstances (snd tuned_start)))"
    by (simp add: tuned_start_eq)
  have t: "await_save (tool_save (toolInstance (snd tuned_start)) False)
             = Inr (JObj [(''text'', JStr ''Hello'')])"
    by (simp add: tuned_start_eq example_tool_saves)
  have m: "(''align'', align_instance)
             \<in> set (tunesInstances (snd tuned_start) @ defaultTunesInstances (snd tuned_start))"
    by (simp add: tuned_start_eq)
  have f: "align_save False = Throws ''broken''" by (simp add: align_save_def)
  have c: "tune_class align_instance = ''AlignTune''"
    by (simp add: align_instance_def align_tune_def)
  have a: "(''anchor'', tune_create anchor_tune (JStr ''intro''))
             \<in> set (tunesInstances (snd tuned_start) @ defaultTunesInstances (snd tuned_start))"
    by (simp add: tuned_start_eq)
  have sv: "tune_save (tune_create anchor_tune (JStr ''intro'')) = Some (\<lambda>w. Returns (JStr ''intro''))"
    by (simp add: anchor_tune_def)
  note inst = throwing_tune_writes_nothing_and_siblings_are_saved
    [OF d t m align_instance_save f, of "fst tuned_start" 0 1]
  have sib: "map_of (fst (Block_save (fst tuned_start) False 0 1 (snd tuned_start)) 0) ''anchor''
       = Some (JStr ''intro'')"
    using inst a sv by (auto simp: tuned_start_eq(1))
  show ?thesis using inst f sib by (simp add: tuned_start_eq c)
qed

subsection \<open>Saving: the bag is the Block's own object\<close>

text \<open>
  Claim C9. The tunes of the Block have distinct names and the tool's \<^verbatim>\<open>save\<close> gives a value
  in both calls. The result of \<^verbatim>\<open>save()\<close> names as its tunes bag the very object of
  \<^verbatim>\<open>unavailableTunesData\<close>, and after the call that object holds the output of every tune
  whose \<^verbatim>\<open>save()\<close> returned. So when a tune returns \<open>x\<close> in a first \<^verbatim>\<open>save()\<close> and throws in
  a second one, \<^verbatim>\<open>unavailableTunesData\<close> still maps its name to \<open>x\<close> after the second call,
  and the second result gives \<open>x\<close> out again.
\<close>

theorem save_reuses_unavailableTunesData_and_stale_values_persist:
  assumes "distinct (map fst (tunesInstances b @ defaultTunesInstances b))"
    and "await_save (tool_save (toolInstance b) w1) = Inr v1"
    and "await_save (tool_save (toolInstance b) w2) = Inr v2"
    and "(name, tune) \<in> set (tunesInstances b @ defaultTunesInstances b)"
    and "tune_save tune = Some f" and "f w1 = Returns x" and "f w2 = Throws e"
    and "first = Block_save st w1 t0 t1 b"
    and "second = Block_save (fst first) w2 t2 t3 b"
  shows "(\<exists>r. snd (snd first) = Resolved (Some r) \<and> sd_tunes r = unavailableTunesData b)
       \<and> (\<forall>(n, t) \<in> set (tunesInstances b @ defaultTunesInstances b).
             \<forall>g y. tune_save t = Some g \<and> g w1 = Returns y \<longrightarrow>
               map_of (fst first (unavailableTunesData b)) n = Some y)
       \<and> map_of (fst first (unavailableTunesData b)) name = Some x
       \<and> (\<exists>r. snd (snd second) = Resolved (Some r) \<and> sd_tunes r = unavailableTunesData b)
       \<and> map_of (fst second (unavailableTunesData b)) name = Some x
       \<and> map_of (saved_tunes second) name = Some x"
proof -
  let ?insts = "tunesInstances b @ defaultTunesInstances b"
  have m: "map_of ?insts name = Some tune" using assms(1,4) by (simp only: map_of_is_SomeI)
  have 1: "\<exists>r. snd (snd first) = Resolved (Some r) \<and> sd_tunes r = unavailableTunesData b"
    by (simp add: assms(8) Block_save_ok [OF assms(2)])
  have 2: "\<forall>(n, t) \<in> set ?insts.
             \<forall>g y. tune_save t = Some g \<and> g w1 = Returns y \<longrightarrow>
               map_of (fst first (unavailableTunesData b)) n = Some y"
  proof (clarify)
    fix n t g y
    assume "(n, t) \<in> set ?insts" "tune_save t = Some g" "g w1 = Returns y"
    moreover from this(1) assms(1) have "map_of ?insts n = Some t" by (simp only: map_of_is_SomeI)
    ultimately show "map_of (fst first (unavailableTunesData b)) n = Some y"
      by (simp add: assms(8) Block_save_lookup [OF assms(1,2)] del: map_of_append)
  qed
  have 3: "map_of (fst first (unavailableTunesData b)) name = Some x"
    using 2 assms(4,5,6) by blast
  have 4: "\<exists>r. snd (snd second) = Resolved (Some r) \<and> sd_tunes r = unavailableTunesData b"
    by (simp add: assms(9) Block_save_ok [OF assms(3)])
  have 5: "map_of (fst second (unavailableTunesData b)) name = Some x"
    using 3 by (simp add: assms(9) Block_save_lookup [OF assms(1,3)] m assms(5,7) del: map_of_append)
  have 6: "map_of (saved_tunes second) name = Some x"
    using 5 by (simp only: assms(9) saved_tunes_ok [OF assms(3)])
  show ?thesis using 1 2 3 4 5 6 by blast
qed

text \<open>
  Claim C9, witness: the two saves of the example Block, the flag of the world up and then
  down.
\<close>

theorem save_reuses_unavailableTunesData_and_stale_values_persist_witness:
  "align_save True = Returns (JStr ''left'') \<and> align_save False = Throws ''broken''
   \<and> map_of (fst first_save 0) ''align'' = Some (JStr ''left'')
   \<and> map_of (fst first_save 0) ''anchor'' = Some (JStr ''intro'')
   \<and> map_of (fst second_save 0) ''align'' = Some (JStr ''left'')
   \<and> map_of (saved_tunes second_save) ''align'' = Some (JStr ''left'')"
proof -
  have d: "distinct (map fst (tunesInstances (snd tuned_start) @ defaultTunesInstances (snd tuned_start)))"
    by (simp add: tuned_start_eq)
  have t: "\<And>w. await_save (tool_save (toolInstance (snd tuned_start)) w)
             = Inr (JObj [(''text'', JStr ''Hello'')])"
    by (simp add: tuned_start_eq example_tool_saves)
  have m: "(''align'', align_instance)
             \<in> set (tunesInstances (snd tuned_start) @ defaultTunesInstances (snd tuned_start))"
    by (simp add: tuned_start_eq)
  have f: "align_save True = Returns (JStr ''left'')" "align_save False = Throws ''broken''"
    by (simp_all add: align_save_def)
  have a: "(''anchor'', tune_create anchor_tune (JStr ''intro''))
             \<in> set (tunesInstances (snd tuned_start) @ defaultTunesInstances (snd tuned_start))"
    by (simp add: tuned_start_eq)
  have sv: "tune_save (tune_create anchor_tune (JStr ''intro'')) = Some (\<lambda>w. Returns (JStr ''intro''))"
    by (simp add: anchor_tune_def)
  note inst = save_reuses_unavailableTunesData_and_stale_values_persist
    [OF d t t m align_instance_save f first_save_def second_save_def]
  have sib: "map_of (fst first_save 0) ''anchor'' = Some (JStr ''intro'')"
    using inst a sv by (auto simp: tuned_start_eq(1))
  show ?thesis using inst f sib by (simp add: tuned_start_eq)
qed

subsection \<open>The active entry of the toolbox\<close>

lemma some_prop_matches_obj:
  "some_prop_matches equals (JObj blockData) d =
     Returns (list_ex (\<lambda>(propName, propValue).
                truthy (obj_read blockData propName)
                \<and> equals (obj_read blockData propName) propValue) d)"
  by (induction d) (auto simp: prop_read_def)

lemma toolbox_find_obj:
  "\<forall>item \<in> set toolbox. entry_data item \<noteq> None \<Longrightarrow>
   toolbox_find equals (JObj blockData) toolbox =
     Resolved (find (some_prop_equal equals blockData) toolbox)"
  by (induction toolbox) (auto simp: some_prop_matches_obj some_prop_equal_def)

text \<open>
  Claim C4, as the code has it. With exactly one toolbox entry, \<^verbatim>\<open>getActiveToolboxEntry()\<close>
  resolves to that entry without looking at the Block's data (and without saving the
  Block). With any other number of entries, all of them declaring data, and the Block's
  data an object, it resolves to the first entry that has at least one declared key whose
  value in the Block's data is truthy and equals the declared value, and to \<^verbatim>\<open>undefined\<close> when
  there is no such entry. One equal key is enough; the other keys of the entry are not
  compared.
\<close>

theorem getActiveToolboxEntry_first_entry_with_some_equal_prop:
  "(length toolbox = 1 \<longrightarrow>
      getActiveToolboxEntry equals isEmpty toolbox st w t0 t1 b = (st, [], Resolved (Some (hd toolbox))))
   \<and> (length toolbox \<noteq> 1 \<and> (\<forall>item \<in> set toolbox. entry_data item \<noteq> None)
        \<and> snd (snd (Block_data isEmpty st w t0 t1 b)) = Resolved (JObj blockData) \<longrightarrow>
      snd (snd (getActiveToolboxEntry equals isEmpty toolbox st w t0 t1 b)) =
        Resolved (find (some_prop_equal equals blockData) toolbox))"
proof (intro conjI impI)
  assume "length toolbox = 1"
  then obtain x where "toolbox = [x]" by (cases toolbox) auto
  then show "getActiveToolboxEntry equals isEmpty toolbox st w t0 t1 b
               = (st, [], Resolved (Some (hd toolbox)))"
    by (simp add: getActiveToolboxEntry_def array_at_def)
next
  assume h: "length toolbox \<noteq> 1 \<and> (\<forall>item \<in> set toolbox. entry_data item \<noteq> None)
        \<and> snd (snd (Block_data isEmpty st w t0 t1 b)) = Resolved (JObj blockData)"
  then show "snd (snd (getActiveToolboxEntry equals isEmpty toolbox st w t0 t1 b)) =
        Resolved (find (some_prop_equal equals blockData) toolbox)"
    by (auto simp: getActiveToolboxEntry_def promise_then_def toolbox_find_obj split: prod.splits)
qed

text \<open>
  Claim C4, as stated, fails: the Block is a centered heading of level 2; the first entry
  declares level 2 and alignment left, the second level 2 and alignment center. The code
  resolves to the first entry, whose alignment differs from the Block's; the first entry
  whose declared keys all equal the Block's values is the second.
\<close>

theorem getActiveToolboxEntry_matches_on_one_key_only:
  "snd (snd (getActiveToolboxEntry (=) no_data [left_heading, centered_heading]
               (\<lambda>a. []) True 0 1 heading_block)) = Resolved (Some left_heading)
   \<and> spec_active_entry (=)
        [(''text'', JStr ''Hi''), (''level'', JNum 2), (''align'', JStr ''center'')]
        [left_heading, centered_heading] = Some centered_heading
   \<and> left_heading \<noteq> centered_heading"
  by code_simp

text \<open>
  Claim C4, witness: the centered heading with a toolbox of one entry, and with the toolbox
  of two entries.
\<close>

theorem getActiveToolboxEntry_first_entry_with_some_equal_prop_witness:
  "length [centered_heading] = 1
   \<and> snd (snd (getActiveToolboxEntry (=) no_data [centered_heading] (\<lambda>a. []) True 0 1 heading_block))
       = Resolved (Some centered_heading)
   \<and> length [left_heading, centered_heading] \<noteq> 1
   \<and> snd (snd (Block_data no_data (\<lambda>a. []) True 0 1 heading_block)) =
       Resolved (JObj [(''text'', JStr ''Hi''), (''level'', JNum 2), (''align'', JStr ''center'')])
   \<and> snd (snd (getActiveToolboxEntry (=) no_data [left_heading, centered_heading]
               (\<lambda>a. []) True 0 1 heading_block)) = Resolved (Some left_heading)"
proof -
  have d: "snd (snd (Block_data no_data (\<lambda>a. []) True 0 1 heading_block)) =
       Resolved (JObj [(''text'', JStr ''Hi''), (''level'', JNum 2), (''align'', JStr ''center'')])"
    by code_simp
  have e: "\<forall>item \<in> set [left_heading, centered_heading]. entry_data item \<noteq> None"
    by (simp add: left_heading_def centered_heading_def)
  have f: "find (some_prop_equal (=)
             [(''text'', JStr ''Hi''), (''level'', JNum 2), (''align'', JStr ''center'')])
             [left_heading, centered_heading] = Some left_heading"
    by (simp add: some_prop_equal_def left_heading_def centered_heading_def obj_read_def)
  note one = getActiveToolboxEntry_first_entry_with_some_equal_prop [of "[centered_heading]" "(=)" no_data "\<lambda>a. []" True 0 1 heading_block]
  note two = getActiveToolboxEntry_first_entry_with_some_equal_prop [of "[left_heading, centered_heading]" "(=)" no_data "\<lambda>a. []" True 0 1 heading_block
      "[(''text'', JStr ''Hi''), (''level'', JNum 2), (''align'', JStr ''center'')]"]
  show ?thesis using one two d e f by simp
qed

subsection \<open>The tests of patterns decide their languages\<close>

lemma nullable_lang: "nullable r \<longleftrightarrow> [] \<in> lang r"
proof (induction r)
  case (Star r)
  show ?case by (simp add: repeated.none)
qed auto

lemma lang_alt: "lang (alt r s) = lang r \<union> lang s"
  by (induction r s rule: alt.induct) auto

lemma lang_seq: "lang (seq r s) = {u @ v | u v. u \<in> lang r \<and> v \<in> lang s}"
  by (induction r s rule: seq.induct) auto

lemma repeated_cons:
  "c # w \<in> repeated A \<longleftrightarrow> (\<exists>u v. w = u @ v \<and> c # u \<in> A \<and> v \<in> repeated A)"
proof
  assume "c # w \<in> repeated A"
  then show "\<exists>u v. w = u @ v \<and> c # u \<in> A \<and> v \<in> repeated A"
  proof (induction "c # w" arbitrary: w rule: repeated.induct)
    case (more u v)
    show ?case
    proof (cases u)
      case Nil
      then show ?thesis using more by simp
    next
      case (Cons a u')
      then have "w = u' @ v" "c # u' \<in> A" using more.hyps(1,4) by auto
      then show ?thesis using more.hyps(2) by blast
    qed
  qed
next
  assume "\<exists>u v. w = u @ v \<and> c # u \<in> A \<and> v \<in> repeated A"
  then obtain u v where "w = u @ v" "c # u \<in> A" "v \<in> repeated A" by blast
  then show "c # w \<in> repeated A" using repeated.more [of "c # u" A v] by simp
qed

lemma lang_deriv: "lang (deriv c r) = {w. c # w \<in> lang r}"
proof (induction r)
  case (Seq r s)
  have split: "\<And>w. (\<exists>u v. c # w = u @ v \<and> u \<in> lang r \<and> v \<in> lang s) \<longleftrightarrow>
      ([] \<in> lang r \<and> c # w \<in> lang s)
      \<or> (\<exists>u v. w = u @ v \<and> c # u \<in> lang r \<and> v \<in> lang s)"
    by (auto simp: Cons_eq_append_conv)
  show ?case
    using Seq split by (auto simp: lang_alt lang_seq nullable_lang)
next
  case (Star r)
  show ?case using Star by (auto simp: lang_seq repeated_cons)
qed (auto simp: lang_alt)

lemma test_whole_lang: "test_whole r s \<longleftrightarrow> s \<in> lang r"
  by (induction s arbitrary: r) (auto simp: nullable_lang lang_deriv)

lemma test_prefix_lang: "test_prefix r s \<longleftrightarrow> (\<exists>u v. s = u @ v \<and> u \<in> lang r)"
proof (induction s arbitrary: r)
  case Nil
  then show ?case by (simp add: nullable_lang)
next
  case (Cons c s)
  have "(\<exists>u v. c # s = u @ v \<and> u \<in> lang r) \<longleftrightarrow>
        [] \<in> lang r \<or> (\<exists>u v. s = u @ v \<and> c # u \<in> lang r)"
    by (auto simp: Cons_eq_append_conv)
  then show ?case using Cons by (simp add: nullable_lang lang_deriv)
qed

subsection \<open>Confirming a link\<close>

text \<open>Whatever passes \<^verbatim>\<open>validateURL\<close> starts with a letter or a digit: no value that starts
  with a slash or with a hash sign passes.\<close>

lemma test_whole_Nul: "\<not> test_whole Nul s"
  by (induction s) auto

lemma same_letter_is_letter: "is_letter a \<Longrightarrow> same_letter a x \<Longrightarrow> is_letter x"
  by (auto simp: same_letter_def is_letter_def is_lower_def is_upper_def)

lemma protocol_letters:
  "is_letter CHR ''h''" "is_letter CHR ''t''" "is_letter CHR ''p''" "is_letter CHR ''s''"
  by code_simp+

lemma url_pattern_first:
  assumes "\<not> is_letter c" "\<not> is_digit c"
  shows "deriv c url_pattern = Nul"
proof -
  have l: "\<not> same_letter CHR ''h'' c"
    using assms(1) same_letter_is_letter protocol_letters(1) by blast
  show ?thesis
    using assms l
    by (simp add: url_pattern_def rx_protocol_def rx_domain_def rx_ip_def rx_digits_1_3_def
        Opt_def Plus_def Chr_def Chr_i_def Let_def)
qed

lemma url_pattern_not_nullable: "\<not> nullable url_pattern"
  by code_simp

lemma validateURL_first_character:
  "validateURL s \<Longrightarrow> \<exists>c cs. s = c # cs \<and> (is_letter c \<or> is_digit c)"
proof (cases s)
  case Nil
  assume "validateURL s"
  then show ?thesis using Nil url_pattern_not_nullable by (simp add: validateURL_def)
next
  case (Cons c cs)
  assume v: "validateURL s"
  show ?thesis
  proof (rule ccontr)
    assume "\<not> ?thesis"
    then have "\<not> is_letter c" "\<not> is_digit c" using Cons by auto
    then have "deriv c url_pattern = Nul" by (rule url_pattern_first)
    then show False using v Cons test_whole_Nul by (simp add: validateURL_def)
  qed
qed

lemma not_alnum: "\<not> is_letter CHR ''/''" "\<not> is_digit CHR ''/''" "\<not> is_letter CHR ''#''" "\<not> is_digit CHR ''#''"
  by code_simp+

lemma validateURL_rejects_paths_and_anchors:
  "\<not> validateURL (CHR ''/'' # rest)" "\<not> validateURL (CHR ''#'' # rest)"
  using validateURL_first_character not_alnum by fastforce+

lemma validateURL_examples:
  "validateURL ''example.com''"
  "\<not> validateURL ''/internal/path''"
  "\<not> validateURL ''#section''"
  "\<not> validateURL ''not a url with spaces''"
  by code_simp+

lemma trim_examples:
  "trim ''example.com'' \<noteq> ''''"
  "trim ''/internal/path'' \<noteq> ''''"
  "trim ''#section'' \<noteq> ''''"
  "trim ''not a url with spaces'' \<noteq> ''''"
  by code_simp+

lemma prepareLink_examples:
  "prepareLink ''example.com'' = ''https://example.com''"
  "prepareLink ''/internal/path'' = ''/internal/path''"
  "prepareLink ''#section'' = ''#section''"
  by code_simp+

lemma enterPressed_invalid:
  "trim (input_value t) \<noteq> '''' \<Longrightarrow> \<not> validateURL (input_value t) \<Longrightarrow>
   enterPressed sel t = (t, invalid_url_calls (input_value t))"
  by (simp add: enterPressed_def invalid_url_calls_def)

lemma enterPressed_valid:
  "trim (input_value t) \<noteq> '''' \<Longrightarrow> validateURL (input_value t) \<Longrightarrow> anchor_after sel \<Longrightarrow>
   enterPressed sel t =
     (t, [SelectionRestore, SelectionRemoveFakeBackground]
         @ (if anchor_before sel then [SelectionExpandToTag] else [])
         @ [ExecCommand ''createLink'' (prepareLink (input_value t)),
            SetAnchorProperty ''target'' ''_blank'',
            SetAnchorProperty ''rel'' ''noopener noreferrer'',
            EventPreventDefault, EventStopPropagation, EventStopImmediatePropagation,
            SelectionCollapseToEnd, InlineToolbarClose])"
  by (simp add: enterPressed_def insertLink_def Let_def)

text \<open>
  Claim C5, what the code does with the four values. \<^verbatim>\<open>example.com\<close> passes validation and
  the link created is \<^verbatim>\<open>https://example.com\<close>. \<^verbatim>\<open>/internal/path\<close> and \<^verbatim>\<open>#section\<close> fail validation,
  as \<^verbatim>\<open>not a url with spaces\<close> does: the pattern of \<^verbatim>\<open>validateURL\<close> asks for a domain name or an
  IPv4 address at the start. For each of the three the tooltip is shown, its hiding is
  scheduled after 1000 ms, the tool stays as it is (the input is not closed) and no link
  is created. \<^verbatim>\<open>prepareLink\<close> would leave \<^verbatim>\<open>/internal/path\<close> and \<^verbatim>\<open>#section\<close> unchanged, as the claim
  says, but \<^verbatim>\<open>enterPressed\<close> never passes them to it: no value that starts with a slash or
  with a hash sign passes validation.
\<close>

theorem enterPressed_rejects_internal_links_and_anchors:
  "(anchor_after sel \<longrightarrow>
      enterPressed sel (t\<lparr>input_value := ''example.com''\<rparr>) =
        (t\<lparr>input_value := ''example.com''\<rparr>,
         [SelectionRestore, SelectionRemoveFakeBackground]
         @ (if anchor_before sel then [SelectionExpandToTag] else [])
         @ [ExecCommand ''createLink'' ''https://example.com'',
            SetAnchorProperty ''target'' ''_blank'',
            SetAnchorProperty ''rel'' ''noopener noreferrer'',
            EventPreventDefault, EventStopPropagation, EventStopImmediatePropagation,
            SelectionCollapseToEnd, InlineToolbarClose]))
   \<and> \<not> validateURL ''/internal/path''
   \<and> enterPressed sel (t\<lparr>input_value := ''/internal/path''\<rparr>) =
       (t\<lparr>input_value := ''/internal/path''\<rparr>, invalid_url_calls ''/internal/path'')
   \<and> \<not> validateURL ''#section''
   \<and> enterPressed sel (t\<lparr>input_value := ''#section''\<rparr>) =
       (t\<lparr>input_value := ''#section''\<rparr>, invalid_url_calls ''#section'')
   \<and> enterPressed sel (t\<lparr>input_value := ''not a url with spaces''\<rparr>) =
       (t\<lparr>input_value := ''not a url with spaces''\<rparr>, invalid_url_calls ''not a url with spaces'')
   \<and> prepareLink ''/internal/path'' = ''/internal/path''
   \<and> prepareLink ''#section'' = ''#section''
   \<and> \<not> validateURL (CHR ''/'' # rest)
   \<and> \<not> validateURL (CHR ''#'' # rest)"
  using enterPressed_valid [of "t\<lparr>input_value := ''example.com''\<rparr>" sel]
    enterPressed_invalid [of "t\<lparr>input_value := ''/internal/path''\<rparr>" sel]
    enterPressed_invalid [of "t\<lparr>input_value := ''#section''\<rparr>" sel]
    enterPressed_invalid [of "t\<lparr>input_value := ''not a url with spaces''\<rparr>" sel]
  by (simp add: validateURL_examples trim_examples prepareLink_examples
      validateURL_rejects_paths_and_anchors)

text \<open>
  Claim C5, witness: an open input over a selection that gets its anchor, confirmed with
  \<^verbatim>\<open>example.com\<close> and with \<^verbatim>\<open>/internal/path\<close>.
\<close>

theorem enterPressed_rejects_internal_links_and_anchors_witness:
  "anchor_after \<lparr>isFakeBackgroundEnabled = True, anchor_before = False, anchor_after = True\<rparr>
   \<and> enterPressed \<lparr>isFakeBackgroundEnabled = True, anchor_before = False, anchor_after = True\<rparr>
        \<lparr>input_value = ''example.com'', inputOpened = True, label_showed = True, button_hover = True\<rparr>
     = (\<lparr>input_value = ''example.com'', inputOpened = True, label_showed = True, button_hover = True\<rparr>,
        [SelectionRestore, SelectionRemoveFakeBackground,
         ExecCommand ''createLink'' ''https://example.com'',
         SetAnchorProperty ''target'' ''_blank'', SetAnchorProperty ''rel'' ''noopener noreferrer'',
         EventPreventDefault, EventStopPropagation, EventStopImmediatePropagation,
         SelectionCollapseToEnd, InlineToolbarClose])
   \<and> enterPressed \<lparr>isFakeBackgroundEnabled = True, anchor_before = False, anchor_after = True\<rparr>
        \<lparr>input_value = ''/internal/path'', inputOpened = True, label_showed = True, button_hover = True\<rparr>
     = (\<lparr>input_value = ''/internal/path'', inputOpened = True, label_showed = True, button_hover = True\<rparr>,
        [TooltipShow ''The URL is not valid.'' ''top'', SetTimeoutTooltipHide 1000,
         Log ''Incorrect Link pasted'' ''warn'' ''/internal/path''])"
  using enterPressed_rejects_internal_links_and_anchors [of "\<lparr>isFakeBackgroundEnabled = True, anchor_before = False, anchor_after = True\<rparr>"
      "\<lparr>input_value = '''', inputOpened = True, label_showed = True, button_hover = True\<rparr>"]
  by (simp add: invalid_url_calls_def)

subsection \<open>Move tunes at the boundaries\<close>

lemma MoveDownTune_boundary:
  "getBlockByIndex (i + 1) = None \<Longrightarrow>
   MoveDownTune_handleClick i getBlockByIndex win =
     [ButtonClassAdd CSS_animation, SetTimeout (ButtonClassRemove CSS_animation) 500]"
  by (simp add: MoveDownTune_handleClick_def)

lemma MoveDownTune_moves:
  "moves_of (MoveDownTune_handleClick i getBlockByIndex win) =
     (if getBlockByIndex (i + 1) = None then [] else [i + 1])"
  by (auto simp: MoveDownTune_handleClick_def moves_of_def Let_def split: option.splits)

lemma MoveUpTune_boundary:
  "i = 0 \<or> getBlockByIndex i = None \<or> getBlockByIndex (i - 1) = None \<Longrightarrow>
   MoveUpTune_handleClick i getBlockByIndex win =
     [ButtonClassAdd CSS_animation, SetTimeout (ButtonClassRemove CSS_animation) 500]"
  by (auto simp: MoveUpTune_handleClick_def Let_def)

lemma MoveUpTune_moves:
  "moves_of (MoveUpTune_handleClick i getBlockByIndex win) =
     (if i = 0 \<or> getBlockByIndex i = None \<or> getBlockByIndex (i - 1) = None
      then [] else [i - 1])"
  by (auto simp: MoveUpTune_handleClick_def moves_of_def Let_def)

text \<open>
  Claim C10. The move-down handler calls the API's \<^verbatim>\<open>move\<close> only when a block exists at
  the index after the current one (and then exactly once, with that index); the move-up
  handler calls it only when the current index is not zero and both the current and the
  previous block exist (and then exactly once, with the previous index). In every boundary
  case the handler's whole effect is to add the animation class to the button and to
  schedule its removal after 500 ms, so the block order stays as it was, whatever the
  API's \<^verbatim>\<open>move\<close> does.
\<close>

theorem move_tunes_only_move_inside_bounds:
  "moves_of (MoveDownTune_handleClick i getBlockByIndex win) =
     (if getBlockByIndex (i + 1) = None then [] else [i + 1])
   \<and> moves_of (MoveUpTune_handleClick i getBlockByIndex win) =
     (if i = 0 \<or> getBlockByIndex i = None \<or> getBlockByIndex (i - 1) = None
      then [] else [i - 1])
   \<and> (getBlockByIndex (i + 1) = None \<longrightarrow>
        MoveDownTune_handleClick i getBlockByIndex win =
          [ButtonClassAdd CSS_animation, SetTimeout (ButtonClassRemove CSS_animation) 500]
        \<and> blocks_after move (MoveDownTune_handleClick i getBlockByIndex win) bs = bs)
   \<and> (i = 0 \<or> getBlockByIndex i = None \<or> getBlockByIndex (i - 1) = None \<longrightarrow>
        MoveUpTune_handleClick i getBlockByIndex win =
          [ButtonClassAdd CSS_animation, SetTimeout (ButtonClassRemove CSS_animation) 500]
        \<and> blocks_after move (MoveUpTune_handleClick i getBlockByIndex win) bs = bs)"
  using MoveDownTune_moves [of i getBlockByIndex win] MoveUpTune_moves [of i getBlockByIndex win]
    MoveDownTune_boundary [of getBlockByIndex i win] MoveUpTune_boundary [of i getBlockByIndex win]
  by simp

theorem move_tunes_only_move_inside_bounds_witness:
  "(\<lambda>k::int. if k = 0 then Some \<lparr>rect_top = 10, offsetHeight = 20\<rparr> else None) (0 + 1) = None
   \<and> MoveDownTune_handleClick 0
        (\<lambda>k. if k = 0 then Some \<lparr>rect_top = 10, offsetHeight = 20\<rparr> else None)
        \<lparr>innerHeight = 600, scrollY = 0\<rparr> =
       [ButtonClassAdd ''wobble'', SetTimeout (ButtonClassRemove ''wobble'') 500]
   \<and> MoveUpTune_handleClick 0
        (\<lambda>k. if k = 0 then Some \<lparr>rect_top = 10, offsetHeight = 20\<rparr> else None)
        \<lparr>innerHeight = 600, scrollY = 0\<rparr> =
       [ButtonClassAdd ''wobble'', SetTimeout (ButtonClassRemove ''wobble'') 500]
   \<and> blocks_after (\<lambda>i bs. rev bs)
        (MoveDownTune_handleClick 0
          (\<lambda>k. if k = 0 then Some \<lparr>rect_top = 10, offsetHeight = 20\<rparr> else None)
          \<lparr>innerHeight = 600, scrollY = 0\<rparr>) [1::nat, 2] = [1, 2]"
  using move_tunes_only_move_inside_bounds
    [of 0 "\<lambda>k. if k = 0 then Some \<lparr>rect_top = 10, offsetHeight = 20\<rparr> else None"
        "\<lparr>innerHeight = 600, scrollY = 0\<rparr>" "\<lambda>i bs. rev bs" "[1::nat, 2]"]
  by (simp add: CSS_animation_def)

end
